theory Spec2Isabelle
  imports Main "HOL-Library.Word"
begin

section \<open>Go values shared by both packages\<close>

text \<open>
  A Go \<open>error\<close> is either produced outside the code under study (by the iptables
  library, the listener, the commit function, ...) or built here with \<open>fmt.Errorf\<close>.  The
  second kind keeps its format string and its arguments; nothing below depends on how the
  \<open>fmt\<close> package renders them.  A \<open>nil\<close> error is \<open>None\<close>.
\<close>

datatype error =
    External string
  | Errorf string "fmt_arg list"
and fmt_arg =
    ArgErrno nat
  | ArgError "error option"

text \<open>\<open>strings.Join(elems, sep)\<close>.\<close>

fun Join :: "string list \<Rightarrow> string \<Rightarrow> string" where
  "Join [] sep = []"
| "Join [e] sep = e"
| "Join (e # e' # es) sep = e @ sep @ Join (e' # es) sep"

section \<open>Package provider: the batch iptables provider\<close>

subsection \<open>State\<close>

text \<open>
  \<open>BaseIPTables\<close> is an interface; the value stored in \<open>BatchProvider.ipt\<close> is modelled as
  the record of its methods.  The methods act on the live kernel tables, the state \<open>'w\<close>
  outside the provider, which they take and return.
\<close>

record 'w BaseIPTables =
  ipt_Append :: "string \<Rightarrow> string \<Rightarrow> string list \<Rightarrow> 'w \<Rightarrow> error option \<times> 'w"
  ipt_Insert :: "string \<Rightarrow> string \<Rightarrow> int \<Rightarrow> string list \<Rightarrow> 'w \<Rightarrow> error option \<times> 'w"
  ipt_Delete :: "string \<Rightarrow> string \<Rightarrow> string list \<Rightarrow> 'w \<Rightarrow> error option \<times> 'w"
  ipt_ListChains :: "string \<Rightarrow> 'w \<Rightarrow> (string list \<times> error option) \<times> 'w"
  ipt_ClearChain :: "string \<Rightarrow> string \<Rightarrow> 'w \<Rightarrow> error option \<times> 'w"
  ipt_DeleteChain :: "string \<Rightarrow> string \<Rightarrow> 'w \<Rightarrow> error option \<times> 'w"
  ipt_NewChain :: "string \<Rightarrow> string \<Rightarrow> 'w \<Rightarrow> error option \<times> 'w"

text \<open>\<open>map[string]map[string][]string\<close>: table, chain, rules.\<close>

type_synonym chains = "string \<rightharpoonup> string list"
type_synonym ruleStore = "string \<rightharpoonup> chains"

text \<open>
  The struct \<open>BatchProvider\<close>.  The embedded \<open>sync.Mutex\<close> is taken at the start of every
  method and released at its end; the methods are modelled as the atomic steps the lock
  makes them, so the mutex itself has no field here.
\<close>

record 'w BatchProvider =
  ipt :: "'w BaseIPTables"
  rules :: ruleStore
  batchTables :: "string \<rightharpoonup> bool"
  commitFunc :: "string \<Rightarrow> 'w \<Rightarrow> error option \<times> 'w"
  restoreCmd :: string

text \<open>\<open>NewCustomBatchProvider\<close>: every listed table is mapped to \<open>true\<close>.\<close>

definition NewCustomBatchProvider ::
  "'w BaseIPTables \<Rightarrow> (string \<Rightarrow> 'w \<Rightarrow> error option \<times> 'w) \<Rightarrow> string list \<Rightarrow> 'w BatchProvider" where
  "NewCustomBatchProvider i commit bts =
     \<lparr> ipt = i,
       rules = Map.empty,
       batchTables = foldl (\<lambda>m t. m(t \<mapsto> True)) Map.empty bts,
       commitFunc = commit,
       restoreCmd = [] \<rparr>"

text \<open>
  The read \<open>b.rules[table][chain]\<close> together with its \<open>ok\<close> flag: indexing a missing table
  gives a nil inner map, and indexing a nil map gives "absent".
\<close>

definition lookupChain :: "ruleStore \<Rightarrow> string \<Rightarrow> string \<Rightarrow> string list option" where
  "lookupChain R table chain = (case R table of None \<Rightarrow> None | Some m \<Rightarrow> m chain)"

text \<open>
  The inner map \<open>b.rules[table]\<close> after the lazy creation
  \<open>if _, ok := b.rules[table]; !ok { b.rules[table] = map[string][]string{} }\<close>,
  and the slice \<open>b.rules[table][chain]\<close> after the same step for the chain.
\<close>

definition tableOrNew :: "ruleStore \<Rightarrow> string \<Rightarrow> chains" where
  "tableOrNew R table = (case R table of None \<Rightarrow> Map.empty | Some m \<Rightarrow> m)"

definition chainOrNew :: "chains \<Rightarrow> string \<Rightarrow> string list" where
  "chainOrNew m chain = (case m chain of None \<Rightarrow> [] | Some xs \<Rightarrow> xs)"

text \<open>The assignment \<open>b.rules[table][chain] = xs\<close>, where \<open>m\<close> is the inner map of \<open>table\<close>.\<close>

definition storeChain ::
  "'w BatchProvider \<Rightarrow> string \<Rightarrow> chains \<Rightarrow> string \<Rightarrow> string list \<Rightarrow> 'w BatchProvider" where
  "storeChain b table m chain xs = b\<lparr>rules := (rules b)(table \<mapsto> m(chain \<mapsto> xs))\<rparr>"

subsection \<open>Slices\<close>

text \<open>
  A panic of the Go runtime.  \<open>Insert\<close> is the only method with a reachable one; its result
  is either the panic together with the provider as it stands at that moment (the deferred
  \<open>Unlock\<close> still runs), or the normal return.
\<close>

datatype panic = SliceBoundsOutOfRange | IndexOutOfRange

text \<open>
  The slice expression \<open>s[lo:]\<close> panics unless \<open>0 \<le> lo \<le> len(s)\<close>.  Its value is a view of
  the same backing array that starts \<open>lo\<close> elements in, represented by that offset.
\<close>

definition sliceFrom :: "'a list \<Rightarrow> int \<Rightarrow> nat option" where
  "sliceFrom s lo = (if lo < 0 \<or> int (length s) < lo then None else Some (nat lo))"

text \<open>
  \<open>copy(s[d:], s[c:])\<close> on two views of one backing array: \<open>min(len(dst), len(src))\<close>
  elements are moved, and overlapping ranges behave as if the source were read first.
\<close>

definition copyWithin :: "'a list \<Rightarrow> nat \<Rightarrow> nat \<Rightarrow> 'a list" where
  "copyWithin s d c =
     (let n = min (length s - d) (length s - c)
      in take d s @ take n (drop c s) @ drop (d + n) s)"

text \<open>The assignment \<open>s[i] = v\<close> panics unless \<open>0 \<le> i < len(s)\<close>.\<close>

definition setIndex :: "'a list \<Rightarrow> int \<Rightarrow> 'a \<Rightarrow> 'a list option" where
  "setIndex s i v = (if i < 0 \<or> int (length s) \<le> i then None else Some (s[nat i := v]))"

subsection \<open>Mutations\<close>

type_synonym 'w ret = "error option \<times> 'w BatchProvider \<times> 'w"

text \<open>Forwarding to \<open>b.ipt\<close>: the provider is untouched, the result is handed back.\<close>

definition forward :: "'w BatchProvider \<Rightarrow> ('w \<Rightarrow> error option \<times> 'w) \<Rightarrow> 'w \<Rightarrow> 'w ret" where
  "forward b call w = (case call w of (err, w') \<Rightarrow> (err, b, w'))"

definition Append :: "'w BatchProvider \<Rightarrow> string \<Rightarrow> string \<Rightarrow> string list \<Rightarrow> 'w \<Rightarrow> 'w ret" where
  "Append b table chain rulespec w =
     (case batchTables b table of
        None \<Rightarrow> forward b (ipt_Append (ipt b) table chain rulespec) w
      | Some _ \<Rightarrow>
          (let m = tableOrNew (rules b) table;
               xs = chainOrNew m chain;
               rule = Join rulespec '' ''
           in (None, storeChain b table m chain (xs @ [rule]), w)))"

text \<open>
  The third branch of \<open>Insert\<close> appends the placeholder and stores the longer slice, then
  evaluates the two slice expressions of the \<open>copy\<close> call from left to right, copies, and
  assigns the rule.  \<open>pos\<close> is a Go \<open>int\<close>, modelled as an integer: the subtractions
  \<open>pos - 1\<close> and \<open>pos - 2\<close> leave the 64-bit range only at the two least values of \<open>pos\<close>,
  where Go wraps to a bound above every length and the slice expression is out of range
  just as it is for the negative bound here.
\<close>

definition insertShift :: "string list \<Rightarrow> int \<Rightarrow> string \<Rightarrow> panic + string list" where
  "insertShift s pos rule =
     (case sliceFrom s (pos - 1) of
        None \<Rightarrow> Inl SliceBoundsOutOfRange
      | Some d \<Rightarrow>
          (case sliceFrom s (pos - 2) of
             None \<Rightarrow> Inl SliceBoundsOutOfRange
           | Some c \<Rightarrow>
               (case setIndex (copyWithin s d c) (pos - 1) rule of
                  None \<Rightarrow> Inl IndexOutOfRange
                | Some s' \<Rightarrow> Inr s')))"

definition Insert ::
  "'w BatchProvider \<Rightarrow> string \<Rightarrow> string \<Rightarrow> int \<Rightarrow> string list \<Rightarrow> 'w
     \<Rightarrow> (panic \<times> 'w BatchProvider) + 'w ret" where
  "Insert b table chain pos rulespec w =
     (case batchTables b table of
        None \<Rightarrow> Inr (forward b (ipt_Insert (ipt b) table chain pos rulespec) w)
      | Some _ \<Rightarrow>
          (let m = tableOrNew (rules b) table;
               xs = chainOrNew m chain;
               rule = Join rulespec '' ''
           in if pos = 1 then Inr (None, storeChain b table m chain (rule # xs), w)
              else if pos > int (length xs) then Inr (None, storeChain b table m chain (xs @ [rule]), w)
              else (let s = xs @ [''newvalue'']
                    in case insertShift s pos rule of
                         Inl p \<Rightarrow> Inl (p, storeChain b table m chain s)
                       | Inr s' \<Rightarrow> Inr (None, storeChain b table m chain s', w))))"

text \<open>
  The \<open>switch\<close> inside the loop of \<open>Delete\<close>, for a match at \<open>index\<close> in the slice \<open>xs\<close>:
  the cases are tried in the order written.
\<close>

definition deleteAt :: "string list \<Rightarrow> nat \<Rightarrow> string list" where
  "deleteAt xs index =
     (if index = 0 then (if length xs = 1 then [] else drop 1 xs)
      else if int index = int (length xs) - 1 then take index xs
      else take index xs @ drop (index + 1) xs)"

text \<open>
  The loop \<open>for index, r := range b.rules[table][chain]\<close>: \<open>rs\<close> are the elements still to
  visit, \<open>index\<close> is the position of the first of them in \<open>xs\<close>.  The \<open>break\<close> follows the
  \<open>switch\<close>, so it leaves the loop at the first match.  \<open>None\<close>: the loop ran to its end and
  assigned nothing.
\<close>

fun deleteLoop :: "string \<Rightarrow> string list \<Rightarrow> string list \<Rightarrow> nat \<Rightarrow> string list option" where
  "deleteLoop rule xs [] index = None"
| "deleteLoop rule xs (r # rs) index =
     (if rule = r then Some (deleteAt xs index) else deleteLoop rule xs rs (Suc index))"

definition Delete :: "'w BatchProvider \<Rightarrow> string \<Rightarrow> string \<Rightarrow> string list \<Rightarrow> 'w \<Rightarrow> 'w ret" where
  "Delete b table chain rulespec w =
     (case batchTables b table of
        None \<Rightarrow> forward b (ipt_Delete (ipt b) table chain rulespec) w
      | Some _ \<Rightarrow>
          (case rules b table of
             None \<Rightarrow> (None, b, w)
           | Some m \<Rightarrow>
               (case m chain of
                  None \<Rightarrow> (None, b, w)
                | Some xs \<Rightarrow>
                    (case deleteLoop (Join rulespec '' '') xs xs 0 of
                       None \<Rightarrow> (None, b, w)
                     | Some xs' \<Rightarrow> (None, storeChain b table m chain xs', w)))))"

definition ListChains ::
  "'w BatchProvider \<Rightarrow> string \<Rightarrow> 'w \<Rightarrow> (string list \<times> error option) \<times> 'w BatchProvider \<times> 'w" where
  "ListChains b table w = (case ipt_ListChains (ipt b) table w of (r, w') \<Rightarrow> (r, b, w'))"

definition ClearChain :: "'w BatchProvider \<Rightarrow> string \<Rightarrow> string \<Rightarrow> 'w \<Rightarrow> 'w ret" where
  "ClearChain b table chain w =
     (case batchTables b table of
        None \<Rightarrow> forward b (ipt_ClearChain (ipt b) table chain) w
      | Some _ \<Rightarrow>
          (case rules b table of
             None \<Rightarrow> (None, b, w)
           | Some m \<Rightarrow>
               (case m chain of
                  None \<Rightarrow> (None, b, w)
                | Some _ \<Rightarrow> (None, storeChain b table m chain [], w))))"

definition DeleteChain :: "'w BatchProvider \<Rightarrow> string \<Rightarrow> string \<Rightarrow> 'w \<Rightarrow> 'w ret" where
  "DeleteChain b table chain w =
     (case batchTables b table of
        None \<Rightarrow> forward b (ipt_DeleteChain (ipt b) table chain) w
      | Some _ \<Rightarrow>
          (case rules b table of
             None \<Rightarrow> (None, b, w)
           | Some m \<Rightarrow> (None, b\<lparr>rules := (rules b)(table \<mapsto> m(chain := None))\<rparr>, w)))"

definition NewChain :: "'w BatchProvider \<Rightarrow> string \<Rightarrow> string \<Rightarrow> 'w \<Rightarrow> 'w ret" where
  "NewChain b table chain w =
     (case batchTables b table of
        None \<Rightarrow> forward b (ipt_NewChain (ipt b) table chain) w
      | Some _ \<Rightarrow> (None, storeChain b table (tableOrNew (rules b) table) chain [], w))"

definition RetrieveTable :: "'w BatchProvider \<Rightarrow> ruleStore" where
  "RetrieveTable b = rules b"

subsection \<open>Commit\<close>

text \<open>
  A Go \<open>range\<close> over a map visits every key once, in an order the language leaves open, and
  two loops over the same map need not agree.  \<open>createDataBuffer\<close> has three such loops; the
  orders they happen to take are an argument of the model: the order of the tables, and per
  table the order of the chains in the loop that declares them and in the loop that writes
  their rules.
\<close>

record rangeOrder =
  tableOrder :: "string list"
  declOrder :: "string \<Rightarrow> string list"
  ruleOrder :: "string \<Rightarrow> string list"

definition rangeOf :: "'k list \<Rightarrow> ('k \<rightharpoonup> 'v) \<Rightarrow> bool" where
  "rangeOf ks m \<longleftrightarrow> distinct ks \<and> set ks = dom m"

definition validOrder :: "ruleStore \<Rightarrow> rangeOrder \<Rightarrow> bool" where
  "validOrder R ord \<longleftrightarrow>
     rangeOf (tableOrder ord) R \<and>
     (\<forall>t m. R t = Some m \<longrightarrow> rangeOf (declOrder ord t) m \<and> rangeOf (ruleOrder ord t) m)"

text \<open>
  Each \<open>fmt.Fprintf(buf, ...)\<close> appends to the buffer.  Writing to a \<open>bytes.Buffer\<close> returns
  no error, so the error returns of \<open>createDataBuffer\<close>, and with them the
  \<open>Failed to crete buffer\<close> return of \<open>Commit\<close>, are never taken.
\<close>

fun writeChainDecls :: "string \<Rightarrow> string list \<Rightarrow> string" where
  "writeChainDecls buf [] = buf"
| "writeChainDecls buf (chain # cs) = writeChainDecls (buf @ '':'' @ chain @ '' - [0:0]\<newline>'') cs"

fun writeRules :: "string \<Rightarrow> string \<Rightarrow> string list \<Rightarrow> string" where
  "writeRules buf chain [] = buf"
| "writeRules buf chain (rule # rs) =
     writeRules (buf @ ''-A '' @ chain @ '' '' @ rule @ ''\<newline>'') chain rs"

fun writeChainRules :: "string \<Rightarrow> chains \<Rightarrow> string list \<Rightarrow> string" where
  "writeChainRules buf m [] = buf"
| "writeChainRules buf m (chain # cs) =
     writeChainRules (writeRules buf chain (chainOrNew m chain)) m cs"

fun writeTables :: "string \<Rightarrow> ruleStore \<Rightarrow> rangeOrder \<Rightarrow> string list \<Rightarrow> string" where
  "writeTables buf R ord [] = buf"
| "writeTables buf R ord (table # ts) =
     (let buf1 = buf @ ''*'' @ table @ ''\<newline>'';
          buf2 = writeChainDecls buf1 (declOrder ord table);
          buf3 = writeChainRules buf2 (tableOrNew R table) (ruleOrder ord table);
          buf4 = buf3 @ ''COMMIT\<newline>''
      in writeTables buf4 R ord ts)"

definition createDataBuffer :: "'w BatchProvider \<Rightarrow> rangeOrder \<Rightarrow> string" where
  "createDataBuffer b ord = writeTables [] (rules b) ord (tableOrder ord)"

text \<open>\<open>len(b.batchTables) == 0\<close> holds when the map has no key.\<close>

definition Commit :: "'w BatchProvider \<Rightarrow> rangeOrder \<Rightarrow> 'w \<Rightarrow> 'w ret" where
  "Commit b ord w =
     (if dom (batchTables b) = {} then (None, b, w)
      else (case commitFunc b (createDataBuffer b ord) w of (err, w') \<Rightarrow> (err, b, w')))"

subsection \<open>The capability probe\<close>

text \<open>
  The pattern \<open>v([0-9]+(\.[0-9]+)+)\<close> of \<open>restoreHasWait\<close>, matched the way
  \<open>FindStringSubmatch\<close> matches it: at the leftmost \<open>v\<close> where a match exists, with every
  repetition taking as much as it can.  A shorter first run of digits would be followed by
  a digit and not by a dot, so no other way of matching at that \<open>v\<close> exists.
\<close>

definition isDigit :: "char \<Rightarrow> bool" where
  "isDigit c \<longleftrightarrow> c \<in> set ''0123456789''"

text \<open>
  The repeated group \<open>(\.[0-9]+)\<close> at the start of \<open>s\<close>: the iterations that match, in
  order.
\<close>

function dotGroups :: "string \<Rightarrow> string list" where
  "dotGroups [] = []"
| "dotGroups (c # rest) =
     (if c = CHR ''.'' \<and> takeWhile isDigit rest \<noteq> []
      then (c # takeWhile isDigit rest) # dotGroups (dropWhile isDigit rest)
      else [])"
  by pat_completeness auto
termination
  by (relation "measure length") (auto simp: length_dropWhile_le less_Suc_eq_le)

text \<open>A match that starts at a \<open>v\<close> followed by \<open>s\<close>: the whole match and the two groups.\<close>

definition matchAfterV :: "string \<Rightarrow> string list option" where
  "matchAfterV s =
     (let ds = takeWhile isDigit s;
          gs = dotGroups (dropWhile isDigit s)
      in if ds = [] \<or> gs = [] then None
         else Some [CHR ''v'' # ds @ concat gs, ds @ concat gs, last gs])"

fun FindStringSubmatch :: "string \<Rightarrow> string list option" where
  "FindStringSubmatch [] = None"
| "FindStringSubmatch (c # cs) =
     (if c = CHR ''v''
      then (case matchAfterV cs of Some m \<Rightarrow> Some m | None \<Rightarrow> FindStringSubmatch cs)
      else FindStringSubmatch cs)"

text \<open>
  The package \<open>github.com/hashicorp/go-version\<close> is not part of this repository:
  \<open>restoreHasWait\<close> takes what it uses of it as an argument, a type of versions with its
  parser and its strict order.  The command runner is an argument in the same way:
  \<open>run name args\<close> is \<open>exec.Command(name, args...).CombinedOutput()\<close> on an empty standard
  input.
\<close>

record 'v versionPkg =
  NewVersion :: "string \<Rightarrow> error + 'v"
  LessThan :: "'v \<Rightarrow> 'v \<Rightarrow> bool"

definition restoreHasWait ::
  "(string \<Rightarrow> string list \<Rightarrow> string \<times> error option) \<Rightarrow> 'v versionPkg \<Rightarrow> string \<Rightarrow> bool" where
  "restoreHasWait run V cmdName =
     (case run cmdName [''--version''] of
        (bytes, Some err) \<Rightarrow> False
      | (bytes, None) \<Rightarrow>
          (case FindStringSubmatch bytes of
             None \<Rightarrow> False
           | Some match \<Rightarrow>
               if length match < 2 then False
               else (case NewVersion V (match ! 1) of
                       Inl err \<Rightarrow> False
                     | Inr restoreVersion \<Rightarrow>
                         (case NewVersion V ''1.6.2'' of
                            Inl err \<Rightarrow> False
                          | Inr minimumVersion \<Rightarrow> \<not> LessThan V restoreVersion minimumVersion))))"

subsection \<open>Concrete providers\<close>

text \<open>
  A passthrough applier that records every call it receives: its state is the list of calls
  so far, \<open>res\<close> gives the error each call returns and \<open>chainsOf\<close> the chains it lists.
  \<open>CallCommit\<close> is the entry a recording commit function makes for the buffer it is given.
\<close>

datatype ipt_call =
    CallAppend string string "string list"
  | CallInsert string string int "string list"
  | CallDelete string string "string list"
  | CallListChains string
  | CallClearChain string string
  | CallDeleteChain string string
  | CallNewChain string string
  | CallCommit string

definition recordingIPT :: "(ipt_call \<Rightarrow> error option) \<Rightarrow> (string \<Rightarrow> string list) \<Rightarrow> ipt_call list BaseIPTables" where
  "recordingIPT res chainsOf =
     \<lparr> ipt_Append = (\<lambda>t c r w. (res (CallAppend t c r), w @ [CallAppend t c r])),
       ipt_Insert = (\<lambda>t c p r w. (res (CallInsert t c p r), w @ [CallInsert t c p r])),
       ipt_Delete = (\<lambda>t c r w. (res (CallDelete t c r), w @ [CallDelete t c r])),
       ipt_ListChains = (\<lambda>t w. ((chainsOf t, res (CallListChains t)), w @ [CallListChains t])),
       ipt_ClearChain = (\<lambda>t c w. (res (CallClearChain t c), w @ [CallClearChain t c])),
       ipt_DeleteChain = (\<lambda>t c w. (res (CallDeleteChain t c), w @ [CallDeleteChain t c])),
       ipt_NewChain = (\<lambda>t c w. (res (CallNewChain t c), w @ [CallNewChain t c])) \<rparr>"

text \<open>
  A provider built by \<open>NewCustomBatchProvider\<close> on the recording applier and a recording
  commit function, with the one batch table \<open>nat\<close>, whose store holds the chain
  \<open>PREROUTING\<close> with the rules \<open>xs\<close>.
\<close>

definition natProvider :: "string list \<Rightarrow> ipt_call list BatchProvider" where
  "natProvider xs =
     storeChain
       (NewCustomBatchProvider (recordingIPT (\<lambda>_. None) (\<lambda>_. []))
          (\<lambda>buf w. (None, w @ [CallCommit buf])) [''nat''])
       ''nat'' Map.empty ''PREROUTING'' xs"

text \<open>
  The only order in which the loops can visit a store with the one table \<open>nat\<close> and the
  one chain \<open>PREROUTING\<close>.
\<close>

definition natOrder :: rangeOrder where
  "natOrder =
     \<lparr> tableOrder = [''nat''],
       declOrder = (\<lambda>_. [''PREROUTING'']),
       ruleOrder = (\<lambda>_. [''PREROUTING'']) \<rparr>"

subsection \<open>Vocabulary of the statements\<close>

text \<open>
  The rule list of a chain as the lazily creating methods see it (empty when the table or
  the chain is not cached yet), and the provider after that chain's list is replaced.
\<close>

definition currentRules :: "'w BatchProvider \<Rightarrow> string \<Rightarrow> string \<Rightarrow> string list" where
  "currentRules b table chain = chainOrNew (tableOrNew (rules b) table) chain"

definition withRules :: "'w BatchProvider \<Rightarrow> string \<Rightarrow> string \<Rightarrow> string list \<Rightarrow> 'w BatchProvider" where
  "withRules b table chain ys = storeChain b table (tableOrNew (rules b) table) chain ys"

text \<open>
  What a mutation of one chain leaves alone: the applier, the batch set, the commit function,
  the restore command, and what every other chain of every table reads as.
\<close>

definition sameElsewhere :: "'w BatchProvider \<Rightarrow> 'w BatchProvider \<Rightarrow> string \<Rightarrow> string \<Rightarrow> bool" where
  "sameElsewhere b b' table chain \<longleftrightarrow>
     ipt b' = ipt b \<and> batchTables b' = batchTables b
     \<and> commitFunc b' = commitFunc b \<and> restoreCmd b' = restoreCmd b
     \<and> (\<forall>t c. (t, c) \<noteq> (table, chain) \<longrightarrow>
            lookupChain (rules b') t c = lookupChain (rules b) t c)"

section \<open>Package markedconn: original destination of a redirected connection\<close>

subsection \<open>Kernel structures\<close>

type_synonym byte = "8 word"

text \<open>
  The structs \<open>sockaddr4\<close> and \<open>sockaddr6\<close>.  A fixed-size array \<open>[n]byte\<close> is a list of
  bytes; that its length is \<open>n\<close> is part of the Go type and is stated where it is needed.
\<close>

record sockaddr4 =
  family4 :: "16 word"
  data4 :: "byte list"

record sockaddr6 =
  family6 :: "16 word"
  port6 :: "byte list"
  flowInfo6 :: "byte list"
  ip6 :: "byte list"
  scopeID6 :: "byte list"

text \<open>The zero values that \<open>var addr sockaddr4\<close> and \<open>var addr sockaddr6\<close> declare.\<close>

definition zeroSockaddr4 :: sockaddr4 where
  "zeroSockaddr4 = \<lparr> family4 = 0, data4 = replicate 14 0 \<rparr>"

definition zeroSockaddr6 :: sockaddr6 where
  "zeroSockaddr6 =
     \<lparr> family6 = 0, port6 = replicate 2 0, flowInfo6 = replicate 4 0,
       ip6 = replicate 16 0, scopeID6 = replicate 4 0 \<rparr>"

text \<open>Constants of package \<open>syscall\<close> on linux/amd64, and the option number of this file.\<close>

definition AF_INET :: "16 word" where "AF_INET = 2"
definition AF_INET6 :: "16 word" where "AF_INET6 = 10"
definition SYS_GETSOCKOPT :: nat where "SYS_GETSOCKOPT = 55"
definition SOL_IP :: nat where "SOL_IP = 0"
definition SOL_IPV6 :: nat where "SOL_IPV6 = 41"
definition sockOptOriginalDst :: nat where "sockOptOriginalDst = 80"

text \<open>
  The type \<open>origDest\<close>, a raw system call: \<open>trap\<close>, \<open>a1\<close> (the descriptor), \<open>a2\<close> (the
  level), \<open>a3\<close> (the option), the structure \<open>a4\<close> points to, the size \<open>a5\<close> points to, and
  \<open>a6\<close>.  The call writes through \<open>a4\<close>, so the model returns the structure as the call
  leaves it, next to the \<open>Errno\<close>; the two results that the code discards are left out.
\<close>

type_synonym 'a origDest = "nat \<Rightarrow> nat \<Rightarrow> nat \<Rightarrow> nat \<Rightarrow> 'a \<Rightarrow> nat \<Rightarrow> nat \<Rightarrow> nat \<times> 'a"

text \<open>
  The interface \<open>passFD\<close>.  \<open>Control(f)\<close> of a raw connection either runs \<open>f\<close> once on the
  descriptor or does not run it, and returns an error or \<open>nil\<close>.
\<close>

record passFD =
  control_fd :: "nat option"
  control_err :: "error option"

subsection \<open>Decoding\<close>

text \<open>
  The closures \<open>getsockopt4\<close> and \<open>getsockopt6\<close> assign the captured variables \<open>netIP\<close>,
  \<open>port\<close> and \<open>err\<close>, which start as \<open>nil\<close>, \<open>0\<close> and \<open>nil\<close>; each returns their values
  after it has run.  A \<open>nil\<close> \<open>net.IP\<close> is the empty list.
\<close>

type_synonym captured = "byte list \<times> int \<times> error option"

definition getsockopt4 :: "sockaddr4 origDest \<Rightarrow> nat \<Rightarrow> captured" where
  "getsockopt4 getOrigDest fd =
     (case getOrigDest SYS_GETSOCKOPT fd SOL_IP sockOptOriginalDst zeroSockaddr4 16 0 of
        (e1, addr) \<Rightarrow>
          if e1 \<noteq> 0
          then ([], 0, Some (Errorf ''Failed to get original destination: %s'' [ArgErrno e1]))
          else if family4 addr \<noteq> AF_INET
          then ([], 0, Some (Errorf ''invalid address family. Expected AF_INET'' []))
          else (take (6 - 2) (drop 2 (data4 addr)),
                push_bit 8 (uint (data4 addr ! 0)) + uint (data4 addr ! 1),
                None))"

definition getsockopt6 :: "sockaddr6 origDest \<Rightarrow> nat \<Rightarrow> captured" where
  "getsockopt6 getOrigDest fd =
     (case getOrigDest SYS_GETSOCKOPT fd SOL_IPV6 sockOptOriginalDst zeroSockaddr6 28 0 of
        (e1, addr) \<Rightarrow>
          if e1 \<noteq> 0
          then ([], 0, Some (Errorf ''Failed to get original destination: %s'' [ArgErrno e1]))
          else if family6 addr \<noteq> AF_INET6
          then ([], 0, Some (Errorf ''invalid address family. Expected AF_INET6'' []))
          else (ip6 addr,
                push_bit 8 (uint (port6 addr ! 0)) + uint (port6 addr ! 1),
                None))"

text \<open>
  \<open>getOrigDest\<close> is one untyped system call; the model passes it twice, once at each of the
  two structure types it is used at.  When \<open>Control\<close> fails, the error that is formatted
  is the captured \<open>err\<close>, not \<open>err1\<close>.
\<close>

definition getOriginalDestInternal ::
  "passFD \<Rightarrow> bool \<Rightarrow> sockaddr4 origDest \<Rightarrow> sockaddr6 origDest \<Rightarrow> error + (byte list \<times> int)" where
  "getOriginalDestInternal rawConn v4Proto getOrigDest4 getOrigDest6 =
     (case (case control_fd rawConn of
              None \<Rightarrow> ([], 0, None)
            | Some fd \<Rightarrow>
                if v4Proto then getsockopt4 getOrigDest4 fd else getsockopt6 getOrigDest6 fd) of
        (netIP, port, err) \<Rightarrow>
          (case control_err rawConn of
             Some err1 \<Rightarrow> Inl (Errorf ''Failed to get original destination: %s'' [ArgError err])
           | None \<Rightarrow>
               (case err of
                  Some e \<Rightarrow> Inl e
                | None \<Rightarrow> Inr (netIP, port))))"

subsection \<open>Connections and the listener\<close>

text \<open>
  What the code uses of a \<open>*net.TCPConn\<close>: the result of \<open>SyscallConn()\<close>, the text of
  \<open>LocalAddr()\<close>, and whether the connection has been closed.
\<close>

record TCPConn =
  tcp_SyscallConn :: "error + passFD"
  tcp_LocalAddr :: string
  tcp_closed :: bool

definition TCPConn_Close :: "TCPConn \<Rightarrow> error option \<times> TCPConn" where
  "TCPConn_Close c =
     (if tcp_closed c then (Some (External ''use of closed network connection''), c)
      else (None, c\<lparr>tcp_closed := True\<rparr>))"

text \<open>
  The functions of packages \<open>net\<close> and \<open>syscall\<close> that \<open>GetOriginalDestination\<close> calls:
  \<open>net.SplitHostPort\<close>, the test \<open>net.ParseIP(s).To4() != nil\<close>, and \<open>syscall.Syscall6\<close> at
  the two structure types.
\<close>

record platform =
  SplitHostPort :: "string \<Rightarrow> error + (string \<times> string)"
  ParseIP_To4 :: "string \<Rightarrow> bool"
  Syscall6_sockaddr4 :: "sockaddr4 origDest"
  Syscall6_sockaddr6 :: "sockaddr6 origDest"

definition GetOriginalDestination :: "platform \<Rightarrow> TCPConn \<Rightarrow> error + (byte list \<times> int)" where
  "GetOriginalDestination P conn =
     (case tcp_SyscallConn conn of
        Inl err \<Rightarrow> Inl err
      | Inr rawconn \<Rightarrow>
          (case SplitHostPort P (tcp_LocalAddr conn) of
             Inl err \<Rightarrow> Inl err
           | Inr (localIPString, _) \<Rightarrow>
               getOriginalDestInternal rawconn (ParseIP_To4 P localIPString)
                 (Syscall6_sockaddr4 P) (Syscall6_sockaddr6 P)))"

record ProxiedConnection =
  originalIP :: "byte list"
  originalPort :: int
  originalTCPConnection :: TCPConn

definition ProxiedConnection_Close :: "ProxiedConnection \<Rightarrow> error option \<times> ProxiedConnection" where
  "ProxiedConnection_Close p =
     (case TCPConn_Close (originalTCPConnection p) of
        (err, c) \<Rightarrow> (err, p\<lparr>originalTCPConnection := c\<rparr>))"

text \<open>
  A \<open>net.Conn\<close> handed out by the wrapped listener is a \<open>*net.TCPConn\<close> or something else,
  of which only the closed flag is kept.
\<close>

datatype netConn = IsTCPConn TCPConn | OtherConn bool

fun connClosed :: "netConn \<Rightarrow> bool" where
  "connClosed (IsTCPConn c) = tcp_closed c"
| "connClosed (OtherConn closed) = closed"

text \<open>
  \<open>ProxiedListener\<close>: \<open>netListener_Accept\<close> is what the next call of
  \<open>l.netListener.Accept()\<close> returns.
\<close>

record ProxiedListener =
  netListener_Accept :: "error + netConn"
  mark :: int

text \<open>
  \<open>Accept\<close> returns its two results as a sum.  The second component of the model is the
  connection the wrapped listener handed out, in the state \<open>Accept\<close> leaves it in; the
  methods \<open>Accept\<close> calls on it, \<open>SyscallConn\<close> and \<open>LocalAddr\<close>, do not change it.
\<close>

definition Accept :: "platform \<Rightarrow> ProxiedListener \<Rightarrow> (error + ProxiedConnection) \<times> netConn option" where
  "Accept P l =
     (case netListener_Accept l of
        Inl err \<Rightarrow> (Inl err, None)
      | Inr nc \<Rightarrow>
          (case nc of
             OtherConn _ \<Rightarrow> (Inl (Errorf ''Not a tcp connection - ignoring'' []), Some nc)
           | IsTCPConn tcpConn \<Rightarrow>
               (case GetOriginalDestination P tcpConn of
                  Inl err \<Rightarrow> (Inl err, Some nc)
                | Inr (ip, port) \<Rightarrow>
                    (Inr \<lparr> originalIP = ip, originalPort = port, originalTCPConnection = tcpConn \<rparr>,
                     Some nc))))"

subsection \<open>Vocabulary of the statements\<close>

text \<open>
  The answer of the kernel to the one query each closure makes: the \<open>Errno\<close> and the
  structure as the call leaves it.
\<close>

definition kernelAnswer4 :: "sockaddr4 origDest \<Rightarrow> nat \<Rightarrow> nat \<times> sockaddr4" where
  "kernelAnswer4 getOrigDest fd =
     getOrigDest SYS_GETSOCKOPT fd SOL_IP sockOptOriginalDst zeroSockaddr4 16 0"

definition kernelAnswer6 :: "sockaddr6 origDest \<Rightarrow> nat \<Rightarrow> nat \<times> sockaddr6" where
  "kernelAnswer6 getOrigDest fd =
     getOrigDest SYS_GETSOCKOPT fd SOL_IPV6 sockOptOriginalDst zeroSockaddr6 28 0"

text \<open>The 16-bit value whose big-endian encoding is the two bytes \<open>hi\<close>, \<open>lo\<close>.\<close>

definition bigEndian16 :: "byte \<Rightarrow> byte \<Rightarrow> int" where
  "bigEndian16 hi lo = uint (word_cat hi lo :: 16 word)"

subsection \<open>Concrete connections\<close>

text \<open>
  A system call that answers \<open>r\<close> whatever it is asked; an IPv4 answer for 10.1.2.3, port
  8080, and an IPv6 answer for 2001:db8::1, port 443, each under a family tag to choose;
  a raw connection whose \<open>Control\<close> runs the closure on descriptor 7.
\<close>

definition fixedAnswer :: "nat \<times> 'a \<Rightarrow> 'a origDest" where
  "fixedAnswer r = (\<lambda>trap a1 a2 a3 a4 a5 a6. r)"

definition answer4 :: "16 word \<Rightarrow> sockaddr4" where
  "answer4 fam = \<lparr> family4 = fam, data4 = [0x1F, 0x90, 10, 1, 2, 3, 0, 0, 0, 0, 0, 0, 0, 0] \<rparr>"

definition answer6 :: "16 word \<Rightarrow> sockaddr6" where
  "answer6 fam =
     \<lparr> family6 = fam, port6 = [0x01, 0xBB], flowInfo6 = [0, 0, 0, 0],
       ip6 = [0x20, 0x01, 0x0D, 0xB8, 0, 0, 0, 0, 0, 0, 0, 0, 0, 0, 0, 1],
       scopeID6 = [0, 0, 0, 0] \<rparr>"

definition rawConn7 :: passFD where
  "rawConn7 = \<lparr> control_fd = Some 7, control_err = None \<rparr>"

text \<open>
  A platform on which the local address \<open>10.0.0.5:15000\<close> splits and is an IPv4 address,
  with fixed kernel answers; an open connection with that local address and a given result
  of \<open>SyscallConn\<close>; and a listener about to hand out a given connection.
\<close>

definition platform0 :: "nat \<times> sockaddr4 \<Rightarrow> nat \<times> sockaddr6 \<Rightarrow> platform" where
  "platform0 r4 r6 =
     \<lparr> SplitHostPort = (\<lambda>s. if s = ''10.0.0.5:15000'' then Inr (''10.0.0.5'', ''15000'')
                               else Inl (External ''missing port in address'')),
       ParseIP_To4 = (\<lambda>s. s = ''10.0.0.5''),
       Syscall6_sockaddr4 = fixedAnswer r4,
       Syscall6_sockaddr6 = fixedAnswer r6 \<rparr>"

definition conn0 :: "error + passFD \<Rightarrow> TCPConn" where
  "conn0 sc = \<lparr> tcp_SyscallConn = sc, tcp_LocalAddr = ''10.0.0.5:15000'', tcp_closed = False \<rparr>"

definition listener0 :: "TCPConn \<Rightarrow> ProxiedListener" where
  "listener0 c = \<lparr> netListener_Accept = Inr (IsTCPConn c), mark = 100 \<rparr>"

subsection \<open>The version pattern, declaratively\<close>

text \<open>
  The language of the pattern, independent of any matching strategy: \<open>versionText\<close> are the
  strings of \<open>[0-9]+(\.[0-9]+)+\<close>, and an output contains a version when some \<open>v\<close> in it
  is followed by one.
\<close>

definition digitRun :: "string \<Rightarrow> bool" where
  "digitRun s \<longleftrightarrow> s \<noteq> [] \<and> list_all isDigit s"

definition dotGroup :: "string \<Rightarrow> bool" where
  "dotGroup g \<longleftrightarrow> (case g of [] \<Rightarrow> False | c # ds \<Rightarrow> c = CHR ''.'' \<and> digitRun ds)"

definition versionText :: "string \<Rightarrow> bool" where
  "versionText t \<longleftrightarrow> (\<exists>ds gs. t = ds @ concat gs \<and> digitRun ds \<and> gs \<noteq> [] \<and> list_all dotGroup gs)"

definition containsVersion :: "string \<Rightarrow> bool" where
  "containsVersion out \<longleftrightarrow> (\<exists>pre t post. out = pre @ CHR ''v'' # t @ post \<and> versionText t)"

subsection \<open>A version package and a command runner to evaluate the probe\<close>

text \<open>
  Dotted decimal versions as lists of segments: every segment is a decimal number below
  \<open>2^63\<close>, fewer than three segments are padded with zeros, and the order compares segment
  by segment, a missing segment counting as zero.  This is how the version package treats
  versions without a pre-release part, which are the only ones the pattern lets through.
\<close>

fun splitDots :: "string \<Rightarrow> string \<Rightarrow> string list" where
  "splitDots cur [] = [rev cur]"
| "splitDots cur (c # cs) =
     (if c = CHR ''.'' then rev cur # splitDots [] cs else splitDots (c # cur) cs)"

fun decimal :: "nat \<Rightarrow> string \<Rightarrow> nat" where
  "decimal acc [] = acc"
| "decimal acc (c # cs) = decimal (10 * acc + (of_char c - 48)) cs"

definition parseSegment :: "string \<Rightarrow> int option" where
  "parseSegment s =
     (if s = [] \<or> \<not> list_all isDigit s \<or> 2 ^ 63 \<le> decimal 0 s then None
      else Some (int (decimal 0 s)))"

fun parseSegments :: "string list \<Rightarrow> int list option" where
  "parseSegments [] = Some []"
| "parseSegments (s # ss) =
     (case parseSegment s of
        None \<Rightarrow> None
      | Some n \<Rightarrow> (case parseSegments ss of None \<Rightarrow> None | Some ns \<Rightarrow> Some (n # ns)))"

fun segmentsLess :: "int list \<Rightarrow> int list \<Rightarrow> bool" where
  "segmentsLess [] ys = (\<not> list_all (\<lambda>y. y = 0) ys)"
| "segmentsLess (x # xs) [] = False"
| "segmentsLess (x # xs) (y # ys) = (if x = y then segmentsLess xs ys else x < y)"

definition dottedVersions :: "int list versionPkg" where
  "dottedVersions =
     \<lparr> NewVersion = (\<lambda>s. case parseSegments (splitDots [] s) of
                            None \<Rightarrow> Inl (External ''Malformed version'')
                          | Some ns \<Rightarrow> Inr (ns @ replicate (3 - length ns) 0)),
       LessThan = segmentsLess \<rparr>"

text \<open>A host on which only \<open>iptables-restore\<close> exists, and prints \<open>out\<close> for \<open>--version\<close>.\<close>

definition toolPrints :: "string \<Rightarrow> string \<Rightarrow> string list \<Rightarrow> string \<times> error option" where
  "toolPrints out name args =
     (if name = ''iptables-restore'' \<and> args = [''--version''] then (out, None)
      else ([], Some (External ''executable file not found'')))"

section \<open>Insertion by position\<close>

lemma copyWithin_shift:
  assumes "k + 2 \<le> length xs"
  shows "copyWithin (xs @ [nv]) (Suc k) k = take (Suc k) xs @ drop k xs"
proof -
  have "min (length (xs @ [nv]) - Suc k) (length (xs @ [nv]) - k) = length xs - k"
    using assms by simp
  moreover have "take (length xs - k) (drop k (xs @ [nv])) = drop k xs"
    using assms by simp
  moreover have "drop (Suc k + (length xs - k)) (xs @ [nv]) = []"
    using assms by simp
  moreover have "take (Suc k) (xs @ [nv]) = take (Suc k) xs"
    using assms by simp
  ultimately show ?thesis
    unfolding copyWithin_def Let_def by simp
qed

lemma insertShift_mid:
  assumes "2 \<le> pos" and "pos \<le> int (length xs)"
  shows "insertShift (xs @ [nv]) pos rule
           = Inr (take (nat (pos - 1)) xs @ rule # drop (nat (pos - 1)) xs)"
proof -
  obtain k where k: "pos = int k + 2"
    using assms(1) by (metis add.commute diff_ge_0_iff_ge nat_0_le diff_add_cancel)
  with assms(2) have len: "k + 2 \<le> length xs" by linarith
  have d: "sliceFrom (xs @ [nv]) (pos - 1) = Some (Suc k)"
    using k len by (simp add: sliceFrom_def)
  have c: "sliceFrom (xs @ [nv]) (pos - 2) = Some k"
    using k len by (simp add: sliceFrom_def)
  have dk: "drop k xs = xs ! k # drop (Suc k) xs"
    using len by (simp add: Cons_nth_drop_Suc)
  have upd: "(take (Suc k) xs @ drop k xs)[Suc k := rule] = take (Suc k) xs @ rule # drop (Suc k) xs"
    using len by (simp add: dk list_update_append)
  have n: "nat (pos - 1) = Suc k" using k by simp
  have inr: "\<not> (pos - 1 < 0 \<or> int (length (take (Suc k) xs @ drop k xs)) \<le> pos - 1)"
    using k len by simp
  have si: "setIndex (copyWithin (xs @ [nv]) (Suc k) k) (pos - 1) rule
              = Some (take (Suc k) xs @ rule # drop (Suc k) xs)"
    unfolding setIndex_def copyWithin_shift [OF len] n upd if_not_P [OF inr] ..
  have "nat (pos - 1) = Suc k" using k by simp
  then show ?thesis
    by (simp add: insertShift_def d c si)
qed

lemma insertShift_nonpos:
  assumes "pos \<le> 0"
  shows "insertShift s pos rule = Inl SliceBoundsOutOfRange"
  using assms by (simp add: insertShift_def sliceFrom_def)

lemma lookupChain_withRules:
  "lookupChain (rules (withRules b table chain ys)) table chain = Some ys"
  by (simp add: withRules_def storeChain_def lookupChain_def)

text \<open>The provider each branch of \<open>Insert\<close> returns on a table of the batch set.\<close>

lemma Insert_batch_result:
  assumes "batchTables b table = Some v"
  shows "(pos = 1 \<longrightarrow>
            Insert b table chain pos rulespec w
              = Inr (None, withRules b table chain (Join rulespec '' '' # currentRules b table chain), w))
       \<and> (int (length (currentRules b table chain)) < pos \<longrightarrow>
            Insert b table chain pos rulespec w
              = Inr (None, withRules b table chain (currentRules b table chain @ [Join rulespec '' '']), w))
       \<and> (2 \<le> pos \<and> pos \<le> int (length (currentRules b table chain)) \<longrightarrow>
            Insert b table chain pos rulespec w
              = Inr (None, withRules b table chain
                      (take (nat (pos - 1)) (currentRules b table chain)
                         @ Join rulespec '' '' # drop (nat (pos - 1)) (currentRules b table chain)), w))"
proof (intro conjI impI)
  assume "pos = 1"
  then show "Insert b table chain pos rulespec w
      = Inr (None, withRules b table chain (Join rulespec '' '' # currentRules b table chain), w)"
    using assms by (simp add: Insert_def Let_def withRules_def currentRules_def)
next
  assume gt: "int (length (currentRules b table chain)) < pos"
  show "Insert b table chain pos rulespec w
      = Inr (None, withRules b table chain (currentRules b table chain @ [Join rulespec '' '']), w)"
  proof (cases "pos = 1")
    case True
    with gt have "currentRules b table chain = []" by simp
    with True show ?thesis
      using assms by (simp add: Insert_def Let_def withRules_def currentRules_def)
  next
    case False
    with gt show ?thesis
      using assms by (simp add: Insert_def Let_def withRules_def currentRules_def)
  qed
next
  assume mid: "2 \<le> pos \<and> pos \<le> int (length (currentRules b table chain))"
  then have "pos \<noteq> 1" and "\<not> int (length (currentRules b table chain)) < pos" by simp_all
  moreover have "insertShift (currentRules b table chain @ [''newvalue'']) pos (Join rulespec '' '')
      = Inr (take (nat (pos - 1)) (currentRules b table chain)
             @ Join rulespec '' '' # drop (nat (pos - 1)) (currentRules b table chain))"
    using mid by (simp add: insertShift_mid)
  ultimately show "Insert b table chain pos rulespec w
      = Inr (None, withRules b table chain
              (take (nat (pos - 1)) (currentRules b table chain)
                 @ Join rulespec '' '' # drop (nat (pos - 1)) (currentRules b table chain)), w)"
    using assms by (simp add: Insert_def Let_def withRules_def currentRules_def)
qed

lemma natProvider_batch: "batchTables (natProvider xs) ''nat'' = Some True"
  by (simp add: natProvider_def storeChain_def NewCustomBatchProvider_def)

lemma natProvider_current: "currentRules (natProvider xs) ''nat'' ''PREROUTING'' = xs"
  by (simp add: natProvider_def storeChain_def currentRules_def tableOrNew_def chainOrNew_def)

lemma natProvider_lookup: "lookupChain (rules (natProvider xs)) ''nat'' ''PREROUTING'' = Some xs"
  by (simp add: natProvider_def storeChain_def lookupChain_def)

lemma natProvider_lookup_other: "lookupChain (rules (natProvider xs)) ''nat'' ''OUTPUT'' = None"
  by (simp add: natProvider_def storeChain_def lookupChain_def)

lemma currentRules_lookup:
  "currentRules b table chain
     = (case lookupChain (rules b) table chain of None \<Rightarrow> [] | Some xs \<Rightarrow> xs)"
  by (simp add: currentRules_def tableOrNew_def chainOrNew_def lookupChain_def split: option.splits)

lemma lookupChain_withRules_other:
  assumes "(t, c) \<noteq> (table, chain)"
  shows "lookupChain (rules (withRules b table chain ys)) t c = lookupChain (rules b) t c"
  using assms
  by (auto simp: withRules_def storeChain_def lookupChain_def tableOrNew_def split: option.splits)

lemma sameElsewhere_withRules: "sameElsewhere b (withRules b table chain ys) table chain"
  unfolding sameElsewhere_def
proof (intro conjI allI impI)
  fix t c assume "(t, c) \<noteq> (table, chain)"
  then show "lookupChain (rules (withRules b table chain ys)) t c = lookupChain (rules b) t c"
    by (rule lookupChain_withRules_other)
qed (simp_all add: withRules_def storeChain_def)

text \<open>
  Claim C1.  On a table of the batch set, let \<open>xs\<close> be the rules the chain holds, the empty
  list when the table or the chain is not cached yet.  \<open>Insert\<close> with \<open>pos = 1\<close> returns no
  error and a provider in which the chain reads as the serialized rule followed by \<open>xs\<close>;
  with \<open>pos\<close> greater than the length of \<open>xs\<close>, one in which it reads as \<open>xs\<close> followed by the
  rule; and with \<open>2 \<le> pos \<le> length\<close>, one in which the rule stands right before the element
  that was at 1-based position \<open>pos\<close>: the \<open>pos - 1\<close> elements before it stay, the element at
  \<open>pos\<close> and all after it follow the rule in their old order.  In each case the kernel state
  and every other chain are as before.
\<close>

theorem Insert_position:
  assumes "batchTables b table = Some v"
    and "lookupChain (rules b) table chain = Some xs
           \<or> lookupChain (rules b) table chain = None \<and> xs = []"
  shows "(pos = 1 \<longrightarrow>
            (\<exists>b'. Insert b table chain pos rulespec w = Inr (None, b', w)
               \<and> lookupChain (rules b') table chain = Some (Join rulespec '' '' # xs)
               \<and> sameElsewhere b b' table chain))
       \<and> (int (length xs) < pos \<longrightarrow>
            (\<exists>b'. Insert b table chain pos rulespec w = Inr (None, b', w)
               \<and> lookupChain (rules b') table chain = Some (xs @ [Join rulespec '' ''])
               \<and> sameElsewhere b b' table chain))
       \<and> (2 \<le> pos \<and> pos \<le> int (length xs) \<longrightarrow>
            (\<exists>b'. Insert b table chain pos rulespec w = Inr (None, b', w)
               \<and> lookupChain (rules b') table chain
                    = Some (take (nat (pos - 1)) xs @ Join rulespec '' '' # drop (nat (pos - 1)) xs)
               \<and> length (take (nat (pos - 1)) xs) = nat (pos - 1)
               \<and> sameElsewhere b b' table chain))"
proof -
  from assms(2) have cur: "currentRules b table chain = xs"
    by (auto simp: currentRules_lookup)
  note res = Insert_batch_result [OF assms(1), of pos chain rulespec w, unfolded cur]
  show ?thesis
  proof (intro conjI impI)
    assume "pos = 1"
    with res have "Insert b table chain pos rulespec w
        = Inr (None, withRules b table chain (Join rulespec '' '' # xs), w)" by blast
    then show "\<exists>b'. Insert b table chain pos rulespec w = Inr (None, b', w)
               \<and> lookupChain (rules b') table chain = Some (Join rulespec '' '' # xs)
               \<and> sameElsewhere b b' table chain"
      using lookupChain_withRules sameElsewhere_withRules by blast
  next
    assume "int (length xs) < pos"
    with res have "Insert b table chain pos rulespec w
        = Inr (None, withRules b table chain (xs @ [Join rulespec '' '']), w)" by blast
    then show "\<exists>b'. Insert b table chain pos rulespec w = Inr (None, b', w)
               \<and> lookupChain (rules b') table chain = Some (xs @ [Join rulespec '' ''])
               \<and> sameElsewhere b b' table chain"
      using lookupChain_withRules sameElsewhere_withRules by blast
  next
    assume mid: "2 \<le> pos \<and> pos \<le> int (length xs)"
    with res have "Insert b table chain pos rulespec w
        = Inr (None, withRules b table chain
                 (take (nat (pos - 1)) xs @ Join rulespec '' '' # drop (nat (pos - 1)) xs), w)"
      by blast
    moreover from mid have "nat (pos - 1) \<le> length xs" by linarith
    then have "length (take (nat (pos - 1)) xs) = nat (pos - 1)" by simp
    ultimately show "\<exists>b'. Insert b table chain pos rulespec w = Inr (None, b', w)
               \<and> lookupChain (rules b') table chain
                    = Some (take (nat (pos - 1)) xs @ Join rulespec '' '' # drop (nat (pos - 1)) xs)
               \<and> length (take (nat (pos - 1)) xs) = nat (pos - 1)
               \<and> sameElsewhere b b' table chain"
      using lookupChain_withRules sameElsewhere_withRules by blast
  qed
qed

theorem Insert_position_witness:
  "batchTables (natProvider [''a'', ''b'', ''c'']) ''nat'' = Some True
   \<and> lookupChain (rules (natProvider [''a'', ''b'', ''c''])) ''nat'' ''PREROUTING'' = Some [''a'', ''b'', ''c'']
   \<and> lookupChain (rules (natProvider [''a'', ''b'', ''c''])) ''nat'' ''OUTPUT'' = None
   \<and> (\<exists>b'. Insert (natProvider [''a'', ''b'', ''c'']) ''nat'' ''PREROUTING'' 1 [''-j'', ''X''] []
              = Inr (None, b', [])
          \<and> lookupChain (rules b') ''nat'' ''PREROUTING'' = Some [''-j X'', ''a'', ''b'', ''c''])
   \<and> (\<exists>b'. Insert (natProvider [''a'', ''b'', ''c'']) ''nat'' ''PREROUTING'' 8 [''-j'', ''X''] []
              = Inr (None, b', [])
          \<and> lookupChain (rules b') ''nat'' ''PREROUTING'' = Some [''a'', ''b'', ''c'', ''-j X''])
   \<and> (\<exists>b'. Insert (natProvider [''a'', ''b'', ''c'']) ''nat'' ''PREROUTING'' 2 [''-j'', ''X''] []
              = Inr (None, b', [])
          \<and> lookupChain (rules b') ''nat'' ''PREROUTING'' = Some [''a'', ''-j X'', ''b'', ''c'']
          \<and> lookupChain (rules b') ''nat'' ''OUTPUT'' = None)
   \<and> (\<exists>b'. Insert (natProvider [''a'', ''b'', ''c'']) ''nat'' ''OUTPUT'' 1 [''-j'', ''X''] []
              = Inr (None, b', [])
          \<and> lookupChain (rules b') ''nat'' ''OUTPUT'' = Some [''-j X'']
          \<and> lookupChain (rules b') ''nat'' ''PREROUTING'' = Some [''a'', ''b'', ''c''])"
proof -
  let ?b = "natProvider [''a'', ''b'', ''c'']"
  have bt: "batchTables ?b ''nat'' = Some True" by (rule natProvider_batch)
  have pre: "lookupChain (rules ?b) ''nat'' ''PREROUTING'' = Some [''a'', ''b'', ''c'']"
    by (rule natProvider_lookup)
  have out: "lookupChain (rules ?b) ''nat'' ''OUTPUT'' = None"
    by (rule natProvider_lookup_other)
  have h1: "lookupChain (rules ?b) ''nat'' ''PREROUTING'' = Some [''a'', ''b'', ''c'']
              \<or> lookupChain (rules ?b) ''nat'' ''PREROUTING'' = None \<and> [''a'', ''b'', ''c''] = []"
    using pre by simp
  have h2: "lookupChain (rules ?b) ''nat'' ''OUTPUT'' = Some []
              \<or> lookupChain (rules ?b) ''nat'' ''OUTPUT'' = None \<and> ([] :: string list) = []"
    using out by simp
  have j: "Join [''-j'', ''X''] '' '' = ''-j X''" by simp
  from Insert_position [OF bt h1, of 1 "[''-j'', ''X'']" "[]"]
  have 1: "\<exists>b'. Insert ?b ''nat'' ''PREROUTING'' 1 [''-j'', ''X''] [] = Inr (None, b', [])
          \<and> lookupChain (rules b') ''nat'' ''PREROUTING'' = Some [''-j X'', ''a'', ''b'', ''c'']"
    unfolding j by auto
  from Insert_position [OF bt h1, of 8 "[''-j'', ''X'']" "[]"]
  have 2: "\<exists>b'. Insert ?b ''nat'' ''PREROUTING'' 8 [''-j'', ''X''] [] = Inr (None, b', [])
          \<and> lookupChain (rules b') ''nat'' ''PREROUTING'' = Some [''a'', ''b'', ''c'', ''-j X'']"
    unfolding j by auto
  from Insert_position [OF bt h1, of 2 "[''-j'', ''X'']" "[]"]
  have "\<exists>b'. Insert ?b ''nat'' ''PREROUTING'' 2 [''-j'', ''X''] [] = Inr (None, b', [])
          \<and> lookupChain (rules b') ''nat'' ''PREROUTING'' = Some [''a'', ''-j X'', ''b'', ''c'']
          \<and> sameElsewhere ?b b' ''nat'' ''PREROUTING''"
    unfolding j by auto
  then have 3: "\<exists>b'. Insert ?b ''nat'' ''PREROUTING'' 2 [''-j'', ''X''] [] = Inr (None, b', [])
          \<and> lookupChain (rules b') ''nat'' ''PREROUTING'' = Some [''a'', ''-j X'', ''b'', ''c'']
          \<and> lookupChain (rules b') ''nat'' ''OUTPUT'' = None"
    using out by (auto simp: sameElsewhere_def)
  from Insert_position [OF bt h2, of 1 "[''-j'', ''X'']" "[]"]
  have "\<exists>b'. Insert ?b ''nat'' ''OUTPUT'' 1 [''-j'', ''X''] [] = Inr (None, b', [])
          \<and> lookupChain (rules b') ''nat'' ''OUTPUT'' = Some [''-j X'']
          \<and> sameElsewhere ?b b' ''nat'' ''OUTPUT''"
    unfolding j by auto
  then have 4: "\<exists>b'. Insert ?b ''nat'' ''OUTPUT'' 1 [''-j'', ''X''] [] = Inr (None, b', [])
          \<and> lookupChain (rules b') ''nat'' ''OUTPUT'' = Some [''-j X'']
          \<and> lookupChain (rules b') ''nat'' ''PREROUTING'' = Some [''a'', ''b'', ''c'']"
    using pre by (auto simp: sameElsewhere_def)
  from bt pre out 1 2 3 4 show ?thesis by blast
qed

section \<open>Deletion of the first match\<close>

lemma deleteAt_eq:
  assumes "index < length xs"
  shows "deleteAt xs index = take index xs @ drop (Suc index) xs"
proof (cases "index = 0")
  case True
  then show ?thesis
    using assms by (cases xs) (simp_all add: deleteAt_def)
next
  case False
  show ?thesis
  proof (cases "int index = int (length xs) - 1")
    case True
    then have "Suc index = length xs" by linarith
    with False True show ?thesis by (simp add: deleteAt_def)
  next
    case no: False
    with False show ?thesis by (simp add: deleteAt_def)
  qed
qed

lemma deleteLoop_no_match:
  "rule \<notin> set rs \<Longrightarrow> deleteLoop rule xs rs index = None"
  by (induction rs arbitrary: index) auto

lemma deleteLoop_first_match:
  "rule \<notin> set pre \<Longrightarrow>
   deleteLoop rule xs (pre @ rule # post) index = Some (deleteAt xs (index + length pre))"
  by (induction pre arbitrary: index) auto

lemma deleteLoop_whole:
  assumes "rule \<notin> set pre"
  shows "deleteLoop rule (pre @ rule # post) (pre @ rule # post) 0 = Some (pre @ post)"
proof -
  have "deleteAt (pre @ rule # post) (length pre) = pre @ post"
    by (simp add: deleteAt_eq)
  then show ?thesis
    using deleteLoop_first_match [OF assms, of "pre @ rule # post" post 0] by simp
qed

lemma lookupChain_SomeD:
  "lookupChain R table chain = Some xs \<Longrightarrow> \<exists>m. R table = Some m \<and> m chain = Some xs"
  by (auto simp: lookupChain_def split: option.splits)

lemma lookupChain_NoneD:
  "lookupChain R table chain = None \<Longrightarrow> R table = None \<or> (\<exists>m. R table = Some m \<and> m chain = None)"
  by (auto simp: lookupChain_def split: option.splits)

text \<open>The provider \<open>Delete\<close> returns on a table of the batch set.\<close>

lemma Delete_batch_result:
  assumes "batchTables b table = Some v"
  shows "(lookupChain (rules b) table chain = None \<longrightarrow>
            Delete b table chain rulespec w = (None, b, w))
       \<and> (\<forall>xs. lookupChain (rules b) table chain = Some xs \<and> Join rulespec '' '' \<notin> set xs \<longrightarrow>
            Delete b table chain rulespec w = (None, b, w))
       \<and> (\<forall>pre post. lookupChain (rules b) table chain = Some (pre @ Join rulespec '' '' # post)
                      \<and> Join rulespec '' '' \<notin> set pre \<longrightarrow>
            Delete b table chain rulespec w = (None, withRules b table chain (pre @ post), w))"
proof (intro conjI allI impI)
  assume "lookupChain (rules b) table chain = None"
  then show "Delete b table chain rulespec w = (None, b, w)"
    using assms by (auto simp: Delete_def dest!: lookupChain_NoneD)
next
  fix xs
  assume "lookupChain (rules b) table chain = Some xs \<and> Join rulespec '' '' \<notin> set xs"
  then show "Delete b table chain rulespec w = (None, b, w)"
    using assms by (auto simp: Delete_def deleteLoop_no_match dest!: lookupChain_SomeD)
next
  fix pre post
  assume a: "lookupChain (rules b) table chain = Some (pre @ Join rulespec '' '' # post)
               \<and> Join rulespec '' '' \<notin> set pre"
  then obtain m where m: "rules b table = Some m" "m chain = Some (pre @ Join rulespec '' '' # post)"
    by (auto dest!: lookupChain_SomeD)
  from a have "deleteLoop (Join rulespec '' '') (pre @ Join rulespec '' '' # post)
                 (pre @ Join rulespec '' '' # post) 0 = Some (pre @ post)"
    by (simp add: deleteLoop_whole)
  then show "Delete b table chain rulespec w = (None, withRules b table chain (pre @ post), w)"
    using assms m by (simp add: Delete_def withRules_def tableOrNew_def)
qed

text \<open>
  Claim C2.  On a table of the batch set, \<open>Delete\<close> returns no error and leaves the kernel
  state alone.  When the table or the chain is not cached, or no element of the chain equals
  the rulespec joined by single spaces, the provider is unchanged.  Otherwise, with \<open>pre\<close>
  the elements before the first element equal to the joined rulespec and \<open>post\<close> those
  after it, the chain reads as \<open>pre @ post\<close> afterwards: exactly that one element is gone,
  later duplicates stay, the order of the rest is kept, and every other chain is as before.
\<close>

theorem Delete_first_match:
  assumes "batchTables b table = Some v"
  shows "(lookupChain (rules b) table chain = None \<longrightarrow>
            Delete b table chain rulespec w = (None, b, w))
       \<and> (\<forall>xs. lookupChain (rules b) table chain = Some xs \<and> Join rulespec '' '' \<notin> set xs \<longrightarrow>
            Delete b table chain rulespec w = (None, b, w))
       \<and> (\<forall>pre post. lookupChain (rules b) table chain = Some (pre @ Join rulespec '' '' # post)
                      \<and> Join rulespec '' '' \<notin> set pre \<longrightarrow>
            (\<exists>b'. Delete b table chain rulespec w = (None, b', w)
               \<and> lookupChain (rules b') table chain = Some (pre @ post)
               \<and> length (pre @ post) + 1 = length (pre @ Join rulespec '' '' # post)
               \<and> sameElsewhere b b' table chain))"
proof (intro conjI allI impI)
  assume "lookupChain (rules b) table chain = None"
  with Delete_batch_result [OF assms, of chain rulespec w]
  show "Delete b table chain rulespec w = (None, b, w)" by blast
next
  fix xs
  assume "lookupChain (rules b) table chain = Some xs \<and> Join rulespec '' '' \<notin> set xs"
  with Delete_batch_result [OF assms, of chain rulespec w]
  show "Delete b table chain rulespec w = (None, b, w)" by blast
next
  fix pre post
  assume "lookupChain (rules b) table chain = Some (pre @ Join rulespec '' '' # post)
            \<and> Join rulespec '' '' \<notin> set pre"
  with Delete_batch_result [OF assms, of chain rulespec w]
  have "Delete b table chain rulespec w = (None, withRules b table chain (pre @ post), w)"
    by blast
  then show "\<exists>b'. Delete b table chain rulespec w = (None, b', w)
               \<and> lookupChain (rules b') table chain = Some (pre @ post)
               \<and> length (pre @ post) + 1 = length (pre @ Join rulespec '' '' # post)
               \<and> sameElsewhere b b' table chain"
    using lookupChain_withRules sameElsewhere_withRules by fastforce
qed

theorem Delete_first_match_witness:
  "batchTables (natProvider [''-j A'', ''-j R'', ''-j B'', ''-j R'']) ''nat'' = Some True
   \<and> lookupChain (rules (natProvider [''-j A'', ''-j R'', ''-j B'', ''-j R''])) ''nat'' ''PREROUTING''
       = Some [''-j A'', ''-j R'', ''-j B'', ''-j R'']
   \<and> (\<exists>b'. Delete (natProvider [''-j A'', ''-j R'', ''-j B'', ''-j R'']) ''nat'' ''PREROUTING'' [''-j'', ''R''] []
              = (None, b', [])
          \<and> lookupChain (rules b') ''nat'' ''PREROUTING'' = Some [''-j A'', ''-j B'', ''-j R'']
          \<and> lookupChain (rules b') ''nat'' ''OUTPUT'' = None)
   \<and> Delete (natProvider [''-j A'', ''-j R'', ''-j B'', ''-j R'']) ''nat'' ''PREROUTING'' [''-j'', ''C''] []
       = (None, natProvider [''-j A'', ''-j R'', ''-j B'', ''-j R''], [])
   \<and> Delete (natProvider [''-j A'', ''-j R'', ''-j B'', ''-j R'']) ''nat'' ''OUTPUT'' [''-j'', ''R''] []
       = (None, natProvider [''-j A'', ''-j R'', ''-j B'', ''-j R''], [])"
proof -
  let ?b = "natProvider [''-j A'', ''-j R'', ''-j B'', ''-j R'']"
  have bt: "batchTables ?b ''nat'' = Some True" by (rule natProvider_batch)
  have pre: "lookupChain (rules ?b) ''nat'' ''PREROUTING'' = Some [''-j A'', ''-j R'', ''-j B'', ''-j R'']"
    by (rule natProvider_lookup)
  have out: "lookupChain (rules ?b) ''nat'' ''OUTPUT'' = None"
    by (rule natProvider_lookup_other)
  have "lookupChain (rules ?b) ''nat'' ''PREROUTING''
          = Some ([''-j A''] @ Join [''-j'', ''R''] '' '' # [''-j B'', ''-j R''])
          \<and> Join [''-j'', ''R''] '' '' \<notin> set [''-j A'']"
    by (simp add: natProvider_lookup)
  with Delete_first_match [OF bt, of "''PREROUTING''" "[''-j'', ''R'']" "[]"]
  have "\<exists>b'. Delete ?b ''nat'' ''PREROUTING'' [''-j'', ''R''] [] = (None, b', [])
          \<and> lookupChain (rules b') ''nat'' ''PREROUTING'' = Some ([''-j A''] @ [''-j B'', ''-j R''])
          \<and> sameElsewhere ?b b' ''nat'' ''PREROUTING''"
    by blast
  then have 1: "\<exists>b'. Delete ?b ''nat'' ''PREROUTING'' [''-j'', ''R''] [] = (None, b', [])
          \<and> lookupChain (rules b') ''nat'' ''PREROUTING'' = Some [''-j A'', ''-j B'', ''-j R'']
          \<and> lookupChain (rules b') ''nat'' ''OUTPUT'' = None"
    using out by (auto simp: sameElsewhere_def)
  have "lookupChain (rules ?b) ''nat'' ''PREROUTING'' = Some [''-j A'', ''-j R'', ''-j B'', ''-j R'']
          \<and> Join [''-j'', ''C''] '' '' \<notin> set [''-j A'', ''-j R'', ''-j B'', ''-j R'']"
    by (simp add: natProvider_lookup)
  with Delete_first_match [OF bt, of "''PREROUTING''" "[''-j'', ''C'']" "[]"]
  have 2: "Delete ?b ''nat'' ''PREROUTING'' [''-j'', ''C''] [] = (None, ?b, [])"
    by blast
  from Delete_first_match [OF bt, of "''OUTPUT''" "[''-j'', ''R'']" "[]"]
  have 3: "Delete ?b ''nat'' ''OUTPUT'' [''-j'', ''R''] [] = (None, ?b, [])"
    by (simp add: natProvider_lookup_other)
  from bt pre 1 2 3 show ?thesis by blast
qed

section \<open>Panic of Insert, NewChain, and the direct path\<close>

text \<open>
  Claim C9.  On a table of the batch set, \<open>Insert\<close> with \<open>pos \<le> 0\<close> panics, whatever the
  chain holds: the call reaches the third branch, appends the placeholder, and both slice
  expressions of the \<open>copy\<close> call, with lower bounds \<open>pos - 1\<close> and \<open>pos - 2\<close>, are out of
  range.  With \<open>pos \<ge> 1\<close> the call returns normally, without error.
\<close>

theorem Insert_panics_iff_nonpositive:
  assumes "batchTables b table = Some v"
  shows "(pos \<le> 0 \<longrightarrow>
            Insert b table chain pos rulespec w
              = Inl (SliceBoundsOutOfRange,
                     withRules b table chain (currentRules b table chain @ [''newvalue'']))
            \<and> sliceFrom (currentRules b table chain @ [''newvalue'']) (pos - 1) = None
            \<and> sliceFrom (currentRules b table chain @ [''newvalue'']) (pos - 2) = None)
       \<and> (1 \<le> pos \<longrightarrow> (\<exists>b'. Insert b table chain pos rulespec w = Inr (None, b', w)))"
proof (intro conjI impI)
  assume np: "pos \<le> 0"
  then have "pos \<noteq> 1" and "\<not> int (length (currentRules b table chain)) < pos" by simp_all
  then show "Insert b table chain pos rulespec w
      = Inl (SliceBoundsOutOfRange, withRules b table chain (currentRules b table chain @ [''newvalue'']))"
    using assms np
    by (simp add: Insert_def Let_def withRules_def currentRules_def insertShift_nonpos)
  show "sliceFrom (currentRules b table chain @ [''newvalue'']) (pos - 1) = None"
    using np by (simp add: sliceFrom_def)
  show "sliceFrom (currentRules b table chain @ [''newvalue'']) (pos - 2) = None"
    using np by (simp add: sliceFrom_def)
next
  assume p: "1 \<le> pos"
  consider "pos = 1" | "pos \<noteq> 1" "int (length (currentRules b table chain)) < pos"
    | "2 \<le> pos" "pos \<le> int (length (currentRules b table chain))"
    using p by linarith
  then show "\<exists>b'. Insert b table chain pos rulespec w = Inr (None, b', w)"
  proof cases
    case 1
    then show ?thesis using assms by (simp add: Insert_def Let_def)
  next
    case 2
    then show ?thesis using assms by (simp add: Insert_def Let_def currentRules_def)
  next
    case 3
    then have "pos \<noteq> 1" and "\<not> int (length (currentRules b table chain)) < pos" by simp_all
    moreover note insertShift_mid [OF 3, of "''newvalue''" "Join rulespec '' ''"]
    ultimately show ?thesis
      using assms by (simp add: Insert_def Let_def currentRules_def)
  qed
qed

theorem Insert_panics_iff_nonpositive_witness:
  "batchTables (natProvider [''a'', ''b'']) ''nat'' = Some True \<and> (0::int) \<le> 0 \<and> (1::int) \<le> 2
   \<and> Insert (natProvider [''a'', ''b'']) ''nat'' ''PREROUTING'' 0 [''x''] []
       = Inl (SliceBoundsOutOfRange,
              withRules (natProvider [''a'', ''b'']) ''nat'' ''PREROUTING'' [''a'', ''b'', ''newvalue''])
   \<and> (\<exists>b'. Insert (natProvider [''a'', ''b'']) ''nat'' ''PREROUTING'' 2 [''x''] [] = Inr (None, b', []))"
  using Insert_panics_iff_nonpositive [OF natProvider_batch [of "[''a'', ''b'']"], where pos = 0
          and chain = "''PREROUTING''" and rulespec = "[''x'']" and w = "[]"]
        Insert_panics_iff_nonpositive [OF natProvider_batch [of "[''a'', ''b'']"], where pos = 2
          and chain = "''PREROUTING''" and rulespec = "[''x'']" and w = "[]"]
  by (simp add: natProvider_batch natProvider_current)

lemma withRules_batchTables: "batchTables (withRules b table chain ys) = batchTables b"
  by (simp add: withRules_def storeChain_def)

lemma withRules_idem:
  "withRules (withRules b table chain ys) table chain zs = withRules b table chain zs"
  by (simp add: withRules_def storeChain_def tableOrNew_def)

lemma NewChain_batch:
  "batchTables b table = Some v \<Longrightarrow> NewChain b table chain w = (None, withRules b table chain [], w)"
  by (simp add: NewChain_def withRules_def)

text \<open>
  Claim C10.  On a table of the batch set, \<open>NewChain\<close> sets the chain's rule list to the
  empty list whatever it held: a second call changes nothing more, and on a chain that
  holds rules the call is not a no-op, since the provider it leaves differs from the one it
  found.
\<close>

theorem NewChain_discards_rules:
  assumes "batchTables b table = Some v"
  shows "NewChain b table chain w = (None, withRules b table chain [], w)
       \<and> lookupChain (rules (withRules b table chain [])) table chain = Some []
       \<and> NewChain (withRules b table chain []) table chain w = (None, withRules b table chain [], w)
       \<and> (\<forall>xs. lookupChain (rules b) table chain = Some xs \<and> xs \<noteq> [] \<longrightarrow>
             withRules b table chain [] \<noteq> b)"
proof (intro conjI allI impI)
  show "NewChain b table chain w = (None, withRules b table chain [], w)"
    using assms by (rule NewChain_batch)
  show "lookupChain (rules (withRules b table chain [])) table chain = Some []"
    by (rule lookupChain_withRules)
  have "batchTables (withRules b table chain []) table = Some v"
    using assms by (simp add: withRules_batchTables)
  then show "NewChain (withRules b table chain []) table chain w = (None, withRules b table chain [], w)"
    by (simp add: NewChain_batch withRules_idem)
next
  fix xs
  assume a: "lookupChain (rules b) table chain = Some xs \<and> xs \<noteq> []"
  show "withRules b table chain [] \<noteq> b"
  proof
    assume "withRules b table chain [] = b"
    then have "lookupChain (rules (withRules b table chain [])) table chain
                 = lookupChain (rules b) table chain" by simp
    with a show False by (simp add: lookupChain_withRules)
  qed
qed

theorem NewChain_discards_rules_witness:
  "batchTables (natProvider [''-j DNAT'', ''-p tcp'']) ''nat'' = Some True
   \<and> NewChain (natProvider [''-j DNAT'', ''-p tcp'']) ''nat'' ''PREROUTING'' []
       = (None, natProvider [], [])
   \<and> natProvider [] \<noteq> natProvider [''-j DNAT'', ''-p tcp'']"
proof -
  let ?b = "natProvider [''-j DNAT'', ''-p tcp'']"
  have bt: "batchTables ?b ''nat'' = Some True" by (rule natProvider_batch)
  have eq: "withRules ?b ''nat'' ''PREROUTING'' [] = natProvider []"
    by (simp add: withRules_def natProvider_def storeChain_def tableOrNew_def)
  have "lookupChain (rules ?b) ''nat'' ''PREROUTING'' = Some [''-j DNAT'', ''-p tcp'']
          \<and> [''-j DNAT'', ''-p tcp''] \<noteq> ([] :: string list)"
    by (simp add: natProvider_lookup)
  with NewChain_discards_rules [OF bt, of "''PREROUTING''" "[]"] bt eq
  show ?thesis by auto
qed

text \<open>
  Claim C7.  For every table, in the batch set or not, \<open>ListChains\<close> returns what the
  passthrough applier's \<open>ListChains\<close> returns on the kernel state, applied once, and hands
  the provider back unchanged; replacing the cached rules and the batch set by anything
  else changes neither the result nor the kernel state left behind.
\<close>

theorem ListChains_always_forwarded:
  "ListChains b table w
     = (fst (ipt_ListChains (ipt b) table w), b, snd (ipt_ListChains (ipt b) table w))
   \<and> fst (ListChains (b\<lparr>rules := R, batchTables := T\<rparr>) table w) = fst (ListChains b table w)
   \<and> snd (snd (ListChains (b\<lparr>rules := R, batchTables := T\<rparr>) table w)) = snd (snd (ListChains b table w))"
  by (simp add: ListChains_def split: prod.splits)

lemma forward_eq: "forward b call w = (fst (call w), b, snd (call w))"
  by (simp add: forward_def split: prod.splits)

text \<open>
  Claim C8.  For a table outside the batch set, each of \<open>Append\<close>, \<open>Insert\<close>, \<open>Delete\<close>,
  \<open>ClearChain\<close>, \<open>DeleteChain\<close> and \<open>NewChain\<close> is one application of the passthrough
  applier's method of the same name to the same arguments: its error is returned as it is,
  the kernel state is the one that application leaves, and the provider, with all its cached
  tables and chains, is unchanged.
\<close>

theorem direct_table_forwarded:
  assumes "batchTables b table = None"
  shows "Append b table chain rulespec w
           = (fst (ipt_Append (ipt b) table chain rulespec w), b,
              snd (ipt_Append (ipt b) table chain rulespec w))
       \<and> Insert b table chain pos rulespec w
           = Inr (fst (ipt_Insert (ipt b) table chain pos rulespec w), b,
                  snd (ipt_Insert (ipt b) table chain pos rulespec w))
       \<and> Delete b table chain rulespec w
           = (fst (ipt_Delete (ipt b) table chain rulespec w), b,
              snd (ipt_Delete (ipt b) table chain rulespec w))
       \<and> ClearChain b table chain w
           = (fst (ipt_ClearChain (ipt b) table chain w), b,
              snd (ipt_ClearChain (ipt b) table chain w))
       \<and> DeleteChain b table chain w
           = (fst (ipt_DeleteChain (ipt b) table chain w), b,
              snd (ipt_DeleteChain (ipt b) table chain w))
       \<and> NewChain b table chain w
           = (fst (ipt_NewChain (ipt b) table chain w), b,
              snd (ipt_NewChain (ipt b) table chain w))"
  using assms
  by (simp add: Append_def Insert_def Delete_def ClearChain_def DeleteChain_def NewChain_def
        forward_eq)

lemma natProvider_filter: "batchTables (natProvider xs) ''filter'' = None"
  by (simp add: natProvider_def storeChain_def NewCustomBatchProvider_def)

lemma natProvider_ipt: "ipt (natProvider xs) = recordingIPT (\<lambda>_. None) (\<lambda>_. [])"
  by (simp add: natProvider_def storeChain_def NewCustomBatchProvider_def)

theorem direct_table_forwarded_witness:
  "batchTables (natProvider [''-p tcp'']) ''filter'' = None
   \<and> Append (natProvider [''-p tcp'']) ''filter'' ''INPUT'' [''-j'', ''DROP''] []
       = (None, natProvider [''-p tcp''], [CallAppend ''filter'' ''INPUT'' [''-j'', ''DROP'']])
   \<and> Insert (natProvider [''-p tcp'']) ''filter'' ''INPUT'' 0 [''-j'', ''DROP''] []
       = Inr (None, natProvider [''-p tcp''], [CallInsert ''filter'' ''INPUT'' 0 [''-j'', ''DROP'']])
   \<and> Delete (natProvider [''-p tcp'']) ''filter'' ''INPUT'' [''-j'', ''DROP''] []
       = (None, natProvider [''-p tcp''], [CallDelete ''filter'' ''INPUT'' [''-j'', ''DROP'']])
   \<and> ClearChain (natProvider [''-p tcp'']) ''filter'' ''INPUT'' []
       = (None, natProvider [''-p tcp''], [CallClearChain ''filter'' ''INPUT''])
   \<and> DeleteChain (natProvider [''-p tcp'']) ''filter'' ''INPUT'' []
       = (None, natProvider [''-p tcp''], [CallDeleteChain ''filter'' ''INPUT''])
   \<and> NewChain (natProvider [''-p tcp'']) ''filter'' ''INPUT'' []
       = (None, natProvider [''-p tcp''], [CallNewChain ''filter'' ''INPUT''])"
  using direct_table_forwarded [OF natProvider_filter [of "[''-p tcp'']"], where chain = "''INPUT''"
          and rulespec = "[''-j'', ''DROP'']" and pos = 0 and w = "[]"]
  by (simp add: natProvider_filter natProvider_ipt recordingIPT_def)

section \<open>The buffer written at Commit\<close>

lemma rangeOf_singleton:
  assumes "rangeOf ks [k \<mapsto> v]"
  shows "ks = [k]"
proof -
  from assms have d: "distinct ks" and s: "set ks = {k}"
    by (simp_all add: rangeOf_def)
  from s obtain x xs where ks: "ks = x # xs" by (cases ks) auto
  with s have x: "x = k" by auto
  from ks d s x have "set xs \<subseteq> {k}" "k \<notin> set xs" by auto
  then have "xs = []" by (cases xs) auto
  with ks x show ?thesis by simp
qed

text \<open>
  Claim C3.  When the store is exactly the table \<open>nat\<close> with the chain \<open>PREROUTING\<close> holding
  \<open>-j DNAT\<close> and \<open>-p tcp\<close>, then in whatever order the loops range over the maps the buffer
  is the five lines of the claim, and \<open>Commit\<close>, when the batch set is not empty, hands
  exactly that buffer to the commit function, once, and returns its result.
\<close>

theorem createDataBuffer_nat_PREROUTING:
  assumes "rules b = [''nat'' \<mapsto> [''PREROUTING'' \<mapsto> [''-j DNAT'', ''-p tcp'']]]"
    and "validOrder (rules b) ord"
  shows "createDataBuffer b ord
           = ''*nat\<newline>:PREROUTING - [0:0]\<newline>-A PREROUTING -j DNAT\<newline>-A PREROUTING -p tcp\<newline>COMMIT\<newline>''
       \<and> (dom (batchTables b) \<noteq> {} \<longrightarrow>
            Commit b ord w
              = (fst (commitFunc b ''*nat\<newline>:PREROUTING - [0:0]\<newline>-A PREROUTING -j DNAT\<newline>-A PREROUTING -p tcp\<newline>COMMIT\<newline>'' w), b,
                 snd (commitFunc b ''*nat\<newline>:PREROUTING - [0:0]\<newline>-A PREROUTING -j DNAT\<newline>-A PREROUTING -p tcp\<newline>COMMIT\<newline>'' w)))"
proof -
  let ?m = "[''PREROUTING'' \<mapsto> [''-j DNAT'', ''-p tcp'']]"
  from assms have t: "tableOrder ord = [''nat'']"
    by (auto simp: validOrder_def intro: rangeOf_singleton)
  from assms have "rangeOf (declOrder ord ''nat'') ?m" and "rangeOf (ruleOrder ord ''nat'') ?m"
    by (simp_all add: validOrder_def)
  then have d: "declOrder ord ''nat'' = [''PREROUTING'']" and r: "ruleOrder ord ''nat'' = [''PREROUTING'']"
    by (auto intro: rangeOf_singleton)
  have buf: "createDataBuffer b ord
           = ''*nat\<newline>:PREROUTING - [0:0]\<newline>-A PREROUTING -j DNAT\<newline>-A PREROUTING -p tcp\<newline>COMMIT\<newline>''"
    by (simp add: createDataBuffer_def t d r assms(1) tableOrNew_def chainOrNew_def)
  show ?thesis
    by (simp add: buf Commit_def split: prod.splits)
qed

lemma natProvider_rules:
  "rules (natProvider xs) = [''nat'' \<mapsto> [''PREROUTING'' \<mapsto> xs]]"
  by (simp add: natProvider_def storeChain_def NewCustomBatchProvider_def)

lemma natOrder_valid: "validOrder [''nat'' \<mapsto> [''PREROUTING'' \<mapsto> xs]] natOrder"
  by (simp add: validOrder_def rangeOf_def natOrder_def)

theorem createDataBuffer_nat_PREROUTING_witness:
  "rules (natProvider [''-j DNAT'', ''-p tcp'']) = [''nat'' \<mapsto> [''PREROUTING'' \<mapsto> [''-j DNAT'', ''-p tcp'']]]
   \<and> validOrder (rules (natProvider [''-j DNAT'', ''-p tcp''])) natOrder
   \<and> dom (batchTables (natProvider [''-j DNAT'', ''-p tcp''])) \<noteq> {}
   \<and> createDataBuffer (natProvider [''-j DNAT'', ''-p tcp'']) natOrder
       = ''*nat\<newline>:PREROUTING - [0:0]\<newline>-A PREROUTING -j DNAT\<newline>-A PREROUTING -p tcp\<newline>COMMIT\<newline>''
   \<and> Commit (natProvider [''-j DNAT'', ''-p tcp'']) natOrder []
       = (None, natProvider [''-j DNAT'', ''-p tcp''],
          [CallCommit ''*nat\<newline>:PREROUTING - [0:0]\<newline>-A PREROUTING -j DNAT\<newline>-A PREROUTING -p tcp\<newline>COMMIT\<newline>''])"
proof -
  let ?b = "natProvider [''-j DNAT'', ''-p tcp'']"
  have r: "rules ?b = [''nat'' \<mapsto> [''PREROUTING'' \<mapsto> [''-j DNAT'', ''-p tcp'']]]"
    by (rule natProvider_rules)
  have v: "validOrder (rules ?b) natOrder"
    by (simp only: r natOrder_valid)
  have ne: "dom (batchTables ?b) \<noteq> {}"
    using natProvider_batch [of "[''-j DNAT'', ''-p tcp'']"] by auto
  have c: "commitFunc ?b = (\<lambda>buf w. (None, w @ [CallCommit buf]))"
    by (simp add: natProvider_def storeChain_def NewCustomBatchProvider_def)
  from createDataBuffer_nat_PREROUTING [OF r v, of "[]"] r v ne c
  show ?thesis by simp
qed

section \<open>Decoding the original destination\<close>

lemma bigEndian16_eq: "bigEndian16 hi lo = push_bit 8 (uint hi) + uint lo"
proof -
  have lo: "0 \<le> uint lo" "uint lo < 256" using uint_lt2p [of lo] by simp_all
  have hi: "0 \<le> uint hi" "uint hi < 256" using uint_lt2p [of hi] by simp_all
  have "concat_bit 8 (uint lo) (uint hi) = uint lo + push_bit 8 (uint hi)"
    using lo by (simp add: concat_bit_eq take_bit_int_eq_self)
  moreover have "0 \<le> uint lo + push_bit 8 (uint hi)" "uint lo + push_bit 8 (uint hi) < 65536"
    using lo hi by (simp_all add: push_bit_eq_mult)
  ultimately have "take_bit 16 (concat_bit 8 (uint lo) (uint hi)) = push_bit 8 (uint hi) + uint lo"
    by (simp add: take_bit_int_eq_self)
  moreover have "bigEndian16 hi lo = take_bit 16 (concat_bit 8 (uint lo) (uint hi))"
    unfolding bigEndian16_def word_cat_eq' by (simp only: uint_word_of_int_eq len_of_numeral_defs) simp
  ultimately show ?thesis by simp
qed

lemma slice_2_6:
  assumes "length d = 14"
  shows "take (6 - 2) (drop 2 d) = [d ! 2, d ! 3, d ! 4, d ! 5]"
proof -
  have "drop 2 d = d ! 2 # drop 3 d" "drop 3 d = d ! 3 # drop 4 d"
       "drop 4 d = d ! 4 # drop 5 d" "drop 5 d = d ! 5 # drop 6 d"
    using assms Cons_nth_drop_Suc [of 2 d] Cons_nth_drop_Suc [of 3 d]
          Cons_nth_drop_Suc [of 4 d] Cons_nth_drop_Suc [of 5 d]
    by simp_all
  then show ?thesis by simp
qed

lemma getsockopt4_ok:
  assumes "kernelAnswer4 g fd = (0, a)" and "family4 a = AF_INET" and "length (data4 a) = 14"
  shows "getsockopt4 g fd
           = ([data4 a ! 2, data4 a ! 3, data4 a ! 4, data4 a ! 5],
              bigEndian16 (data4 a ! 0) (data4 a ! 1), None)"
  using assms(1,2) slice_2_6 [OF assms(3)]
  by (simp add: getsockopt4_def kernelAnswer4_def bigEndian16_eq)

lemma getsockopt6_ok:
  assumes "kernelAnswer6 g fd = (0, a)" and "family6 a = AF_INET6"
  shows "getsockopt6 g fd = (ip6 a, bigEndian16 (port6 a ! 0) (port6 a ! 1), None)"
  using assms by (simp add: getsockopt6_def kernelAnswer6_def bigEndian16_eq)

lemma getsockopt4_err:
  assumes "fst (kernelAnswer4 g fd) \<noteq> 0 \<or> family4 (snd (kernelAnswer4 g fd)) \<noteq> AF_INET"
  shows "\<exists>e. getsockopt4 g fd = ([], 0, Some e)"
  using assms by (auto simp: getsockopt4_def kernelAnswer4_def split: prod.splits)

lemma getsockopt6_err:
  assumes "fst (kernelAnswer6 g fd) \<noteq> 0 \<or> family6 (snd (kernelAnswer6 g fd)) \<noteq> AF_INET6"
  shows "\<exists>e. getsockopt6 g fd = ([], 0, Some e)"
  using assms by (auto simp: getsockopt6_def kernelAnswer6_def split: prod.splits)

lemma internal_err4:
  assumes "control_fd rc = Some fd"
    and "fst (kernelAnswer4 g4 fd) \<noteq> 0 \<or> family4 (snd (kernelAnswer4 g4 fd)) \<noteq> AF_INET"
  shows "\<exists>e. getOriginalDestInternal rc True g4 g6 = Inl e"
proof -
  from getsockopt4_err [OF assms(2)] obtain e where "getsockopt4 g4 fd = ([], 0, Some e)" ..
  with assms(1) show ?thesis
    by (cases "control_err rc") (simp_all add: getOriginalDestInternal_def)
qed

lemma internal_err6:
  assumes "control_fd rc = Some fd"
    and "fst (kernelAnswer6 g6 fd) \<noteq> 0 \<or> family6 (snd (kernelAnswer6 g6 fd)) \<noteq> AF_INET6"
  shows "\<exists>e. getOriginalDestInternal rc False g4 g6 = Inl e"
proof -
  from getsockopt6_err [OF assms(2)] obtain e where "getsockopt6 g6 fd = ([], 0, Some e)" ..
  with assms(1) show ?thesis
    by (cases "control_err rc") (simp_all add: getOriginalDestInternal_def)
qed

lemma internal_control_err:
  assumes "control_err rc = Some e1"
  shows "\<exists>e. getOriginalDestInternal rc v4 g4 g6 = Inl e"
  using assms by (simp add: getOriginalDestInternal_def split: prod.splits)

text \<open>
  Claim C5.  Let \<open>Control\<close> run the closure on a descriptor.  For IPv4, when the query
  succeeds with a structure tagged \<open>AF_INET\<close>, the decoder returns as port the big-endian
  16-bit value of the data bytes 0 and 1 and as address the data bytes 2 to 5.  For IPv6,
  when the query succeeds with a structure tagged \<open>AF_INET6\<close>, it returns the big-endian
  value of the two bytes of the port field and the 16 bytes of the address field.  When
  the tag of the structure differs from the family of the chosen protocol, it returns an
  error, so neither an address nor a port.
\<close>

theorem getOriginalDestInternal_decodes:
  assumes "control_fd rawConn = Some fd"
  shows "(control_err rawConn = None \<and> kernelAnswer4 g4 fd = (0, a4) \<and> family4 a4 = AF_INET
            \<and> length (data4 a4) = 14 \<longrightarrow>
          getOriginalDestInternal rawConn True g4 g6
            = Inr ([data4 a4 ! 2, data4 a4 ! 3, data4 a4 ! 4, data4 a4 ! 5],
                   bigEndian16 (data4 a4 ! 0) (data4 a4 ! 1)))
       \<and> (control_err rawConn = None \<and> kernelAnswer6 g6 fd = (0, a6) \<and> family6 a6 = AF_INET6 \<longrightarrow>
          getOriginalDestInternal rawConn False g4 g6
            = Inr (ip6 a6, bigEndian16 (port6 a6 ! 0) (port6 a6 ! 1)))
       \<and> (family4 (snd (kernelAnswer4 g4 fd)) \<noteq> AF_INET \<longrightarrow>
          (\<exists>e. getOriginalDestInternal rawConn True g4 g6 = Inl e))
       \<and> (family6 (snd (kernelAnswer6 g6 fd)) \<noteq> AF_INET6 \<longrightarrow>
          (\<exists>e. getOriginalDestInternal rawConn False g4 g6 = Inl e))"
proof (intro conjI impI)
  assume "control_err rawConn = None \<and> kernelAnswer4 g4 fd = (0, a4) \<and> family4 a4 = AF_INET
            \<and> length (data4 a4) = 14"
  then show "getOriginalDestInternal rawConn True g4 g6
            = Inr ([data4 a4 ! 2, data4 a4 ! 3, data4 a4 ! 4, data4 a4 ! 5],
                   bigEndian16 (data4 a4 ! 0) (data4 a4 ! 1))"
    using assms by (simp add: getOriginalDestInternal_def getsockopt4_ok)
next
  assume "control_err rawConn = None \<and> kernelAnswer6 g6 fd = (0, a6) \<and> family6 a6 = AF_INET6"
  then show "getOriginalDestInternal rawConn False g4 g6
            = Inr (ip6 a6, bigEndian16 (port6 a6 ! 0) (port6 a6 ! 1))"
    using assms by (simp add: getOriginalDestInternal_def getsockopt6_ok)
next
  assume "family4 (snd (kernelAnswer4 g4 fd)) \<noteq> AF_INET"
  then show "\<exists>e. getOriginalDestInternal rawConn True g4 g6 = Inl e"
    using assms by (simp add: internal_err4)
next
  assume "family6 (snd (kernelAnswer6 g6 fd)) \<noteq> AF_INET6"
  then show "\<exists>e. getOriginalDestInternal rawConn False g4 g6 = Inl e"
    using assms by (simp add: internal_err6)
qed

lemma bigEndian16_8080: "bigEndian16 0x1F 0x90 = 8080"
  by (simp add: bigEndian16_eq)

lemma bigEndian16_443: "bigEndian16 0x01 0xBB = 443"
  by (simp add: bigEndian16_eq)

theorem getOriginalDestInternal_decodes_witness:
  "control_fd rawConn7 = Some 7
   \<and> getOriginalDestInternal rawConn7 True (fixedAnswer (0, answer4 AF_INET)) (fixedAnswer (0, answer6 AF_INET6))
       = Inr ([10, 1, 2, 3], 8080)
   \<and> getOriginalDestInternal rawConn7 False (fixedAnswer (0, answer4 AF_INET)) (fixedAnswer (0, answer6 AF_INET6))
       = Inr ([0x20, 0x01, 0x0D, 0xB8, 0, 0, 0, 0, 0, 0, 0, 0, 0, 0, 0, 1], 443)
   \<and> (\<exists>e. getOriginalDestInternal rawConn7 True (fixedAnswer (0, answer4 AF_INET6)) (fixedAnswer (0, answer6 AF_INET))
             = Inl e)
   \<and> (\<exists>e. getOriginalDestInternal rawConn7 False (fixedAnswer (0, answer4 AF_INET6)) (fixedAnswer (0, answer6 AF_INET))
             = Inl e)"
proof -
  have fd: "control_fd rawConn7 = Some 7" and ce: "control_err rawConn7 = None"
    by (simp_all add: rawConn7_def)
  have k4: "kernelAnswer4 (fixedAnswer r) 7 = r" for r
    by (simp add: kernelAnswer4_def fixedAnswer_def)
  have k6: "kernelAnswer6 (fixedAnswer r) 7 = r" for r
    by (simp add: kernelAnswer6_def fixedAnswer_def)
  have ne: "AF_INET6 \<noteq> AF_INET" "AF_INET \<noteq> AF_INET6"
    by (simp_all add: AF_INET_def AF_INET6_def)
  from getOriginalDestInternal_decodes [OF fd, of "fixedAnswer (0, answer4 AF_INET)" "answer4 AF_INET"
         "fixedAnswer (0, answer6 AF_INET6)" "answer6 AF_INET6"]
  have good: "getOriginalDestInternal rawConn7 True (fixedAnswer (0, answer4 AF_INET)) (fixedAnswer (0, answer6 AF_INET6))
       = Inr ([10, 1, 2, 3], 8080)"
     "getOriginalDestInternal rawConn7 False (fixedAnswer (0, answer4 AF_INET)) (fixedAnswer (0, answer6 AF_INET6))
       = Inr ([0x20, 0x01, 0x0D, 0xB8, 0, 0, 0, 0, 0, 0, 0, 0, 0, 0, 0, 1], 443)"
    by (simp_all add: ce k4 k6 answer4_def answer6_def bigEndian16_8080 bigEndian16_443)
  from getOriginalDestInternal_decodes [OF fd, of "fixedAnswer (0, answer4 AF_INET6)" "answer4 AF_INET6"
         "fixedAnswer (0, answer6 AF_INET)" "answer6 AF_INET"]
  have bad: "\<exists>e. getOriginalDestInternal rawConn7 True (fixedAnswer (0, answer4 AF_INET6)) (fixedAnswer (0, answer6 AF_INET))
             = Inl e"
     "\<exists>e. getOriginalDestInternal rawConn7 False (fixedAnswer (0, answer4 AF_INET6)) (fixedAnswer (0, answer6 AF_INET))
             = Inl e"
    by (simp_all add: k4 k6 answer4_def answer6_def ne)
  from fd good bad show ?thesis by simp
qed

section \<open>Accept when the original destination cannot be recovered\<close>

lemma Accept_failure:
  assumes "netListener_Accept l = Inr (IsTCPConn c)" and "GetOriginalDestination P c = Inl e"
  shows "Accept P l = (Inl e, Some (IsTCPConn c))"
  using assms by (simp add: Accept_def)

lemma GetOriginalDestination_internal:
  assumes "tcp_SyscallConn c = Inr rc" and "SplitHostPort P (tcp_LocalAddr c) = Inr (h, p)"
  shows "GetOriginalDestination P c
           = getOriginalDestInternal rc (ParseIP_To4 P h) (Syscall6_sockaddr4 P) (Syscall6_sockaddr6 P)"
  using assms by (simp add: GetOriginalDestination_def)

text \<open>
  Claim C4, as stated, fails.  A listener hands out an open IPv4 connection; the kernel
  answers the query with a structure tagged \<open>AF_INET6\<close>; recovery fails with the
  wrong-family error, \<open>Accept\<close> returns that error, and the connection is as open as it was:
  \<open>Accept\<close> has not closed it.
\<close>

theorem Accept_wrong_family_not_closed:
  "GetOriginalDestination (platform0 (0, answer4 AF_INET6) (0, answer6 AF_INET6)) (conn0 (Inr rawConn7))
     = Inl (Errorf ''invalid address family. Expected AF_INET'' [])
   \<and> Accept (platform0 (0, answer4 AF_INET6) (0, answer6 AF_INET6)) (listener0 (conn0 (Inr rawConn7)))
       = (Inl (Errorf ''invalid address family. Expected AF_INET'' []),
          Some (IsTCPConn (conn0 (Inr rawConn7))))
   \<and> \<not> connClosed (IsTCPConn (conn0 (Inr rawConn7)))"
  by (simp add: Accept_def GetOriginalDestination_def getOriginalDestInternal_def getsockopt4_def
        platform0_def conn0_def listener0_def rawConn7_def fixedAnswer_def answer4_def
        AF_INET_def AF_INET6_def)

text \<open>
  Claim C4, amended.  For a TCP connection \<open>c\<close> handed out by the wrapped listener:
  whenever \<open>GetOriginalDestination\<close> fails, \<open>Accept\<close> returns that very error and no
  connection, and leaves \<open>c\<close> exactly as it was handed out (it does not close it).  This
  is the case when \<open>SyscallConn\<close> fails, when \<open>Control\<close> returns an error, when the kernel
  query returns a non-zero \<open>Errno\<close>, and when the structure carries the wrong family tag.
\<close>

theorem Accept_rejects_on_failure:
  assumes "netListener_Accept l = Inr (IsTCPConn c)"
  shows "(\<forall>e. GetOriginalDestination P c = Inl e \<longrightarrow> Accept P l = (Inl e, Some (IsTCPConn c)))
       \<and> (\<forall>e. tcp_SyscallConn c = Inl e \<longrightarrow> Accept P l = (Inl e, Some (IsTCPConn c)))
       \<and> (\<forall>rc h p. tcp_SyscallConn c = Inr rc \<and> SplitHostPort P (tcp_LocalAddr c) = Inr (h, p) \<longrightarrow>
             (control_err rc \<noteq> None \<longrightarrow> (\<exists>e. Accept P l = (Inl e, Some (IsTCPConn c))))
           \<and> (\<forall>fd. control_fd rc = Some fd \<and> ParseIP_To4 P h
                  \<and> (fst (kernelAnswer4 (Syscall6_sockaddr4 P) fd) \<noteq> 0
                       \<or> family4 (snd (kernelAnswer4 (Syscall6_sockaddr4 P) fd)) \<noteq> AF_INET) \<longrightarrow>
                  (\<exists>e. Accept P l = (Inl e, Some (IsTCPConn c))))
           \<and> (\<forall>fd. control_fd rc = Some fd \<and> \<not> ParseIP_To4 P h
                  \<and> (fst (kernelAnswer6 (Syscall6_sockaddr6 P) fd) \<noteq> 0
                       \<or> family6 (snd (kernelAnswer6 (Syscall6_sockaddr6 P) fd)) \<noteq> AF_INET6) \<longrightarrow>
                  (\<exists>e. Accept P l = (Inl e, Some (IsTCPConn c)))))"
proof (intro conjI allI impI)
  fix e assume "GetOriginalDestination P c = Inl e"
  with assms show "Accept P l = (Inl e, Some (IsTCPConn c))" by (rule Accept_failure)
next
  fix e assume "tcp_SyscallConn c = Inl e"
  then have "GetOriginalDestination P c = Inl e" by (simp add: GetOriginalDestination_def)
  with assms show "Accept P l = (Inl e, Some (IsTCPConn c))" by (rule Accept_failure)
next
  fix rc h p
  assume a: "tcp_SyscallConn c = Inr rc \<and> SplitHostPort P (tcp_LocalAddr c) = Inr (h, p)"
    and "control_err rc \<noteq> None"
  then have "\<exists>e. GetOriginalDestination P c = Inl e"
    by (auto simp: GetOriginalDestination_internal intro: internal_control_err)
  then show "\<exists>e. Accept P l = (Inl e, Some (IsTCPConn c))"
    using Accept_failure [OF assms] by blast
next
  fix rc h p fd
  assume a: "tcp_SyscallConn c = Inr rc \<and> SplitHostPort P (tcp_LocalAddr c) = Inr (h, p)"
    and b: "control_fd rc = Some fd \<and> ParseIP_To4 P h
                  \<and> (fst (kernelAnswer4 (Syscall6_sockaddr4 P) fd) \<noteq> 0
                       \<or> family4 (snd (kernelAnswer4 (Syscall6_sockaddr4 P) fd)) \<noteq> AF_INET)"
  from b internal_err4 [of rc fd "Syscall6_sockaddr4 P" "Syscall6_sockaddr6 P"]
  have "\<exists>e. GetOriginalDestination P c = Inl e"
    using a by (simp add: GetOriginalDestination_internal)
  then show "\<exists>e. Accept P l = (Inl e, Some (IsTCPConn c))"
    using Accept_failure [OF assms] by blast
next
  fix rc h p fd
  assume a: "tcp_SyscallConn c = Inr rc \<and> SplitHostPort P (tcp_LocalAddr c) = Inr (h, p)"
    and b: "control_fd rc = Some fd \<and> \<not> ParseIP_To4 P h
                  \<and> (fst (kernelAnswer6 (Syscall6_sockaddr6 P) fd) \<noteq> 0
                       \<or> family6 (snd (kernelAnswer6 (Syscall6_sockaddr6 P) fd)) \<noteq> AF_INET6)"
  from b internal_err6 [of rc fd "Syscall6_sockaddr6 P" "Syscall6_sockaddr4 P"]
  have "\<exists>e. GetOriginalDestination P c = Inl e"
    using a by (simp add: GetOriginalDestination_internal)
  then show "\<exists>e. Accept P l = (Inl e, Some (IsTCPConn c))"
    using Accept_failure [OF assms] by blast
qed

theorem Accept_rejects_on_failure_witness:
  "netListener_Accept (listener0 (conn0 (Inl (External ''bad file descriptor''))))
     = Inr (IsTCPConn (conn0 (Inl (External ''bad file descriptor''))))
   \<and> Accept (platform0 (0, answer4 AF_INET) (0, answer6 AF_INET6))
        (listener0 (conn0 (Inl (External ''bad file descriptor''))))
       = (Inl (External ''bad file descriptor''),
          Some (IsTCPConn (conn0 (Inl (External ''bad file descriptor'')))))
   \<and> (\<exists>e. Accept (platform0 (13, answer4 0) (0, answer6 AF_INET6)) (listener0 (conn0 (Inr rawConn7)))
            = (Inl e, Some (IsTCPConn (conn0 (Inr rawConn7)))))"
proof -
  let ?c = "conn0 (Inl (External ''bad file descriptor''))"
  let ?P = "platform0 (0, answer4 AF_INET) (0, answer6 AF_INET6)"
  have l: "netListener_Accept (listener0 c) = Inr (IsTCPConn c)" for c
    by (simp add: listener0_def)
  have s: "tcp_SyscallConn ?c = Inl (External ''bad file descriptor'')"
    by (simp add: conn0_def)
  from Accept_rejects_on_failure [OF l [of ?c], of ?P] s
  have 1: "Accept ?P (listener0 ?c) = (Inl (External ''bad file descriptor''), Some (IsTCPConn ?c))"
    by blast
  let ?d = "conn0 (Inr rawConn7)"
  let ?Q = "platform0 (13, answer4 0) (0, answer6 AF_INET6)"
  have q: "tcp_SyscallConn ?d = Inr rawConn7 \<and> SplitHostPort ?Q (tcp_LocalAddr ?d) = Inr (''10.0.0.5'', ''15000'')"
    by (simp add: conn0_def platform0_def)
  have k: "control_fd rawConn7 = Some 7 \<and> ParseIP_To4 ?Q ''10.0.0.5''
             \<and> (fst (kernelAnswer4 (Syscall6_sockaddr4 ?Q) 7) \<noteq> 0
                  \<or> family4 (snd (kernelAnswer4 (Syscall6_sockaddr4 ?Q) 7)) \<noteq> AF_INET)"
    by (simp add: rawConn7_def platform0_def kernelAnswer4_def fixedAnswer_def)
  from Accept_rejects_on_failure [OF l [of ?d], of ?Q] q k
  have 2: "\<exists>e. Accept ?Q (listener0 ?d) = (Inl e, Some (IsTCPConn ?d))"
    by blast
  from l [of ?c] 1 2 show ?thesis by simp
qed

section \<open>The capability probe\<close>

lemma dot_not_digit: "\<not> isDigit CHR ''.''"
  by (simp add: isDigit_def)

lemma takeWhile_digits: "list_all isDigit (takeWhile isDigit s)"
  by (induction s) auto

lemma dotGroups_sound:
  "list_all dotGroup (dotGroups s) \<and> (\<exists>post. s = concat (dotGroups s) @ post)"
proof (induction s rule: dotGroups.induct)
  case 1
  show ?case by simp
next
  case (2 c rest)
  show ?case
  proof (cases "c = CHR ''.'' \<and> takeWhile isDigit rest \<noteq> []")
    case True
    with 2 obtain post where ih: "list_all dotGroup (dotGroups (dropWhile isDigit rest))"
      and post: "dropWhile isDigit rest = concat (dotGroups (dropWhile isDigit rest)) @ post"
      by blast
    have g: "dotGroup (c # takeWhile isDigit rest)"
      using True by (simp add: dotGroup_def digitRun_def takeWhile_digits)
    have "rest = takeWhile isDigit rest @ dropWhile isDigit rest" by simp
    then have "c # rest = concat (dotGroups (c # rest)) @ post"
      using True post by simp
    with g ih True show ?thesis by auto
  next
    case False
    then show ?thesis by auto
  qed
qed

lemma matchAfterV_sound:
  assumes "matchAfterV s = Some m"
  shows "\<exists>t post. s = t @ post \<and> versionText t \<and> m ! 0 = CHR ''v'' # t \<and> m ! 1 = t"
proof -
  let ?ds = "takeWhile isDigit s" and ?gs = "dotGroups (dropWhile isDigit s)"
  from assms have ne: "?ds \<noteq> []" "?gs \<noteq> []"
    and m: "m = [CHR ''v'' # ?ds @ concat ?gs, ?ds @ concat ?gs, last ?gs]"
    by (auto simp: matchAfterV_def Let_def split: if_splits)
  from dotGroups_sound [of "dropWhile isDigit s"] obtain post
    where gs: "list_all dotGroup ?gs" and post: "dropWhile isDigit s = concat ?gs @ post"
    by blast
  have "s = ?ds @ dropWhile isDigit s" by simp
  with post have "s = (?ds @ concat ?gs) @ post" by simp
  moreover have "digitRun ?ds" using ne by (simp add: digitRun_def takeWhile_digits)
  then have "versionText (?ds @ concat ?gs)"
    unfolding versionText_def using ne gs by blast
  ultimately show ?thesis using m by auto
qed

lemma FindStringSubmatch_sound:
  "FindStringSubmatch out = Some m \<Longrightarrow>
   \<exists>pre t post. out = pre @ CHR ''v'' # t @ post \<and> versionText t \<and> m ! 0 = CHR ''v'' # t \<and> m ! 1 = t"
proof (induction out)
  case Nil
  then show ?case by simp
next
  case (Cons c cs)
  show ?case
  proof (cases "c = CHR ''v'' \<and> matchAfterV cs \<noteq> None")
    case True
    with Cons.prems have "matchAfterV cs = Some m" by auto
    from matchAfterV_sound [OF this] obtain t post
      where "cs = t @ post" "versionText t" "m ! 0 = CHR ''v'' # t" "m ! 1 = t" by blast
    with True have "c # cs = [] @ CHR ''v'' # t @ post" by simp
    with \<open>versionText t\<close> \<open>m ! 0 = CHR ''v'' # t\<close> \<open>m ! 1 = t\<close> show ?thesis by blast
  next
    case False
    with Cons.prems have "FindStringSubmatch cs = Some m" by (auto split: if_splits)
    from Cons.IH [OF this] obtain pre t post
      where "cs = pre @ CHR ''v'' # t @ post" "versionText t" "m ! 0 = CHR ''v'' # t" "m ! 1 = t"
      by blast
    then have "c # cs = (c # pre) @ CHR ''v'' # t @ post" by simp
    with \<open>versionText t\<close> \<open>m ! 0 = CHR ''v'' # t\<close> \<open>m ! 1 = t\<close> show ?thesis by blast
  qed
qed

lemma matchAfterV_complete:
  assumes "versionText t"
  shows "matchAfterV (t @ post) \<noteq> None"
proof -
  from assms obtain ds gs where t: "t = ds @ concat gs" and ds: "digitRun ds"
    and gs: "gs \<noteq> []" "list_all dotGroup gs"
    by (auto simp: versionText_def)
  from gs obtain g gs' where g: "gs = g # gs'" "dotGroup g" by (cases gs) auto
  then obtain d ds1 where g1: "g = CHR ''.'' # d # ds1" "isDigit d"
    by (cases g; cases "tl g") (auto simp: dotGroup_def digitRun_def)
  let ?rest = "ds1 @ concat gs' @ post"
  have s: "t @ post = ds @ CHR ''.'' # d # ?rest"
    using t g g1 by simp
  have all: "\<forall>x\<in>set ds. isDigit x" using ds by (simp add: digitRun_def list_all_iff)
  have tw: "takeWhile isDigit (t @ post) = ds"
    unfolding s using all dot_not_digit by (simp add: takeWhile_tail)
  have dw: "dropWhile isDigit (t @ post) = CHR ''.'' # d # ?rest"
    unfolding s using all dot_not_digit by (simp add: dropWhile_append3)
  have "dotGroups (CHR ''.'' # d # ?rest) \<noteq> []"
    using g1 by simp
  with tw dw ds show ?thesis
    by (simp add: matchAfterV_def Let_def digitRun_def)
qed

lemma FindStringSubmatch_complete:
  "versionText t \<Longrightarrow> FindStringSubmatch (pre @ CHR ''v'' # t @ post) \<noteq> None"
proof (induction pre)
  case Nil
  then show ?case using matchAfterV_complete [of t post] by (auto split: option.splits)
next
  case (Cons c pre)
  then show ?case by (auto split: option.splits)
qed

lemma FindStringSubmatch_None_iff:
  "FindStringSubmatch out = None \<longleftrightarrow> \<not> containsVersion out"
proof
  assume n: "FindStringSubmatch out = None"
  show "\<not> containsVersion out"
  proof
    assume "containsVersion out"
    then obtain pre t post where "out = pre @ CHR ''v'' # t @ post" "versionText t"
      by (auto simp: containsVersion_def)
    with FindStringSubmatch_complete [of t pre post] n show False by simp
  qed
next
  assume c: "\<not> containsVersion out"
  show "FindStringSubmatch out = None"
  proof (rule ccontr)
    assume "FindStringSubmatch out \<noteq> None"
    then obtain m where "FindStringSubmatch out = Some m" by auto
    from FindStringSubmatch_sound [OF this] c show False
      by (auto simp: containsVersion_def)
  qed
qed

lemma matchAfterV_length: "matchAfterV s = Some m \<Longrightarrow> length m = 3"
  by (auto simp: matchAfterV_def Let_def split: if_splits)

lemma FindStringSubmatch_length: "FindStringSubmatch s = Some m \<Longrightarrow> length m = 3"
  by (induction s) (auto simp: matchAfterV_length split: if_splits option.splits)

text \<open>
  Claim C6.  Whatever the version package does otherwise, let it parse \<open>1.6.2\<close>.  The
  probe answers "unsupported" when the \<open>--version\<close> run of the executable fails; when its
  output contains no \<open>v\<close> followed by a text of the version pattern; and when the version
  package does not parse the text the pattern extracts.  In the remaining case that text
  is the first group of the match of \<open>FindStringSubmatch\<close>, a version text following a
  \<open>v\<close> of the output, and the probe answers "supported" exactly when the parsed version is
  not less than the parsed \<open>1.6.2\<close>.
\<close>

theorem restoreHasWait_supported_iff:
  assumes "NewVersion V ''1.6.2'' = Inr minimumVersion"
  shows "(\<forall>out e. run cmd [''--version''] = (out, Some e) \<longrightarrow> \<not> restoreHasWait run V cmd)
       \<and> (\<forall>out. run cmd [''--version''] = (out, None) \<and> \<not> containsVersion out \<longrightarrow>
             \<not> restoreHasWait run V cmd)
       \<and> (\<forall>out. run cmd [''--version''] = (out, None) \<and> containsVersion out \<longrightarrow>
             (\<exists>m pre post. FindStringSubmatch out = Some m
                \<and> out = pre @ CHR ''v'' # m ! 1 @ post \<and> versionText (m ! 1)
                \<and> (\<forall>e. NewVersion V (m ! 1) = Inl e \<longrightarrow> \<not> restoreHasWait run V cmd)
                \<and> (\<forall>v. NewVersion V (m ! 1) = Inr v \<longrightarrow>
                      (restoreHasWait run V cmd \<longleftrightarrow> \<not> LessThan V v minimumVersion))))"
proof (intro conjI allI impI)
  fix out e assume "run cmd [''--version''] = (out, Some e)"
  then show "\<not> restoreHasWait run V cmd" by (simp add: restoreHasWait_def)
next
  fix out assume "run cmd [''--version''] = (out, None) \<and> \<not> containsVersion out"
  then have "run cmd [''--version''] = (out, None)" and "FindStringSubmatch out = None"
    by (simp_all add: FindStringSubmatch_None_iff)
  then show "\<not> restoreHasWait run V cmd" by (simp add: restoreHasWait_def)
next
  fix out assume a: "run cmd [''--version''] = (out, None) \<and> containsVersion out"
  then have r: "run cmd [''--version''] = (out, None)" by simp
  from a have "FindStringSubmatch out \<noteq> None" by (simp add: FindStringSubmatch_None_iff)
  then obtain m where m: "FindStringSubmatch out = Some m" by auto
  then have len: "\<not> length m < 2" by (simp add: FindStringSubmatch_length)
  from FindStringSubmatch_sound [OF m] obtain pre t post
    where out: "out = pre @ CHR ''v'' # t @ post" and t: "versionText t" and m1: "m ! 1 = t"
    by blast
  have bad: "\<not> restoreHasWait run V cmd" if "NewVersion V (m ! 1) = Inl e" for e
    using that r m len by (simp add: restoreHasWait_def)
  have good: "restoreHasWait run V cmd \<longleftrightarrow> \<not> LessThan V v minimumVersion"
    if "NewVersion V (m ! 1) = Inr v" for v
    using that r m len assms by (simp add: restoreHasWait_def)
  from m out t m1 bad good
  show "\<exists>m pre post. FindStringSubmatch out = Some m
          \<and> out = pre @ CHR ''v'' # m ! 1 @ post \<and> versionText (m ! 1)
          \<and> (\<forall>e. NewVersion V (m ! 1) = Inl e \<longrightarrow> \<not> restoreHasWait run V cmd)
          \<and> (\<forall>v. NewVersion V (m ! 1) = Inr v \<longrightarrow>
                (restoreHasWait run V cmd \<longleftrightarrow> \<not> LessThan V v minimumVersion))"
    by blast
qed

lemma nv162: "NewVersion dottedVersions ''1.6.2'' = Inr [1, 6, 2]"
  by (simp add: dottedVersions_def parseSegment_def isDigit_def)

lemma nv1421: "NewVersion dottedVersions ''1.4.21'' = Inr [1, 4, 21]"
  by (simp add: dottedVersions_def parseSegment_def isDigit_def)

lemma nv_overflow: "NewVersion dottedVersions ''1.9223372036854775808'' = Inl (External ''Malformed version'')"
  by (simp add: dottedVersions_def parseSegment_def isDigit_def)

lemma find_1_6_2:
  "FindStringSubmatch ''iptables-restore v1.6.2'' = Some [''v1.6.2'', ''1.6.2'', ''.2'']"
  by (simp add: matchAfterV_def isDigit_def Let_def)

lemma find_1_4_21:
  "FindStringSubmatch ''iptables-restore v1.4.21'' = Some [''v1.4.21'', ''1.4.21'', ''.21'']"
  by (simp add: matchAfterV_def isDigit_def Let_def)

lemma find_overflow:
  "FindStringSubmatch ''iptables-restore v1.9223372036854775808''
     = Some [''v1.9223372036854775808'', ''1.9223372036854775808'', ''.9223372036854775808'']"
  by (simp add: matchAfterV_def isDigit_def Let_def)

lemma find_none: "FindStringSubmatch ''iptables-restore: version unknown'' = None"
  by (simp add: matchAfterV_def isDigit_def Let_def)

lemma containsVersion_iff: "containsVersion out \<longleftrightarrow> FindStringSubmatch out \<noteq> None"
  by (simp add: FindStringSubmatch_None_iff)

theorem restoreHasWait_supported_iff_witness:
  "NewVersion dottedVersions ''1.6.2'' = Inr [1, 6, 2]
   \<and> restoreHasWait (toolPrints ''iptables-restore v1.6.2'') dottedVersions ''iptables-restore''
   \<and> \<not> restoreHasWait (toolPrints ''iptables-restore v1.4.21'') dottedVersions ''iptables-restore''
   \<and> \<not> restoreHasWait (toolPrints ''iptables-restore v1.9223372036854775808'') dottedVersions ''iptables-restore''
   \<and> \<not> restoreHasWait (toolPrints ''iptables-restore: version unknown'') dottedVersions ''iptables-restore''
   \<and> \<not> restoreHasWait (toolPrints ''iptables-restore v1.6.2'') dottedVersions ''ip6tables-restore''"
proof -
  have r: "toolPrints out ''iptables-restore'' [''--version''] = (out, None)" for out
    by (simp add: toolPrints_def)
  have r6: "toolPrints out ''ip6tables-restore'' [''--version'']
              = ([], Some (External ''executable file not found''))" for out
    by (simp add: toolPrints_def)
  have lt: "\<not> LessThan dottedVersions [1, 6, 2] [1, 6, 2]" "LessThan dottedVersions [1, 4, 21] [1, 6, 2]"
    by (simp_all add: dottedVersions_def)
  note th = restoreHasWait_supported_iff [OF nv162]
  from th [of "toolPrints ''iptables-restore v1.6.2''" "''iptables-restore''"]
  have 1: "restoreHasWait (toolPrints ''iptables-restore v1.6.2'') dottedVersions ''iptables-restore''"
    using r find_1_6_2 nv162 lt by (simp add: containsVersion_iff)
  from th [of "toolPrints ''iptables-restore v1.4.21''" "''iptables-restore''"]
  have 2: "\<not> restoreHasWait (toolPrints ''iptables-restore v1.4.21'') dottedVersions ''iptables-restore''"
    using r find_1_4_21 nv1421 lt by (simp add: containsVersion_iff)
  from th [of "toolPrints ''iptables-restore v1.9223372036854775808''" "''iptables-restore''"]
  have 3: "\<not> restoreHasWait (toolPrints ''iptables-restore v1.9223372036854775808'') dottedVersions ''iptables-restore''"
    using r find_overflow nv_overflow by (simp add: containsVersion_iff)
  from th [of "toolPrints ''iptables-restore: version unknown''" "''iptables-restore''"]
  have 4: "\<not> restoreHasWait (toolPrints ''iptables-restore: version unknown'') dottedVersions ''iptables-restore''"
    using r find_none by (simp add: containsVersion_iff)
  from th [of "toolPrints ''iptables-restore v1.6.2''" "''ip6tables-restore''"]
  have 5: "\<not> restoreHasWait (toolPrints ''iptables-restore v1.6.2'') dottedVersions ''ip6tables-restore''"
    using r6 by simp
  from nv162 1 2 3 4 5 show ?thesis by simp
qed


end
